theory Spec2Isabelle
  imports Main "HOL-Library.Sublist"
begin

section \<open>Go values: bytes, errors, slices\<close>

text \<open>
  A Go \<^verbatim>\<open>[]byte\<close> is a window on a backing array: indexing is checked against its
  length, re-slicing \<^verbatim>\<open>s[a:b]\<close> against its capacity. The record keeps the bytes
  in \<^verbatim>\<open>[0, len)\<close> in \<open>vis\<close> and those in \<^verbatim>\<open>[len, cap)\<close> in \<open>ext\<close>. A failed
  bounds check is a run-time panic, the value \<open>Panic\<close>; an \<^verbatim>\<open>error\<close> returned by
  the code is \<open>Errorf\<close> with its message.
\<close>

type_synonym bytes = "char list"

datatype error = Errorf string | Panic string

record slice =
  vis :: bytes
  ext :: bytes

definition len :: "slice \<Rightarrow> nat" where
  "len s = length (vis s)"

definition cap :: "slice \<Rightarrow> nat" where
  "cap s = length (vis s) + length (ext s)"

definition nil_slice :: slice where
  "nil_slice = \<lparr>vis = [], ext = []\<rparr>"

definition bnd :: "error + 'a \<Rightarrow> ('a \<Rightarrow> error + 'b) \<Rightarrow> error + 'b" where
  "bnd r f = (case r of Inl e \<Rightarrow> Inl e | Inr x \<Rightarrow> f x)"

definition reslice :: "slice \<Rightarrow> nat \<Rightarrow> nat \<Rightarrow> error + slice" where
  \<comment> \<open>\<^verbatim>\<open>s[a:b]\<close>: in range iff \<^verbatim>\<open>a <= b <= cap(s)\<close>\<close>
  "reslice s a b =
     (if a \<le> b \<and> b \<le> cap s
      then Inr \<lparr>vis = take (b - a) (drop a (vis s @ ext s)), ext = drop b (vis s @ ext s)\<rparr>
      else Inl (Panic ''slice bounds out of range''))"

definition reslice_from :: "slice \<Rightarrow> nat \<Rightarrow> error + slice" where
  \<comment> \<open>\<^verbatim>\<open>s[a:]\<close>\<close>
  "reslice_from s a = reslice s a (len s)"

definition reslice_to :: "slice \<Rightarrow> nat \<Rightarrow> error + slice" where
  \<comment> \<open>\<^verbatim>\<open>s[:b]\<close>\<close>
  "reslice_to s b = reslice s 0 b"

definition quoted :: "bytes \<Rightarrow> string" where
  \<comment> \<open>the format \<^verbatim>\<open>'%s'\<close>\<close>
  "quoted s = [CHR 0x27] @ s @ [CHR 0x27]"

definition fmt_c :: "char \<Rightarrow> string" where
  \<comment> \<open>the format \<^verbatim>\<open>%c\<close> of a byte: the rune of that value, in UTF-8\<close>
  "fmt_c c =
     (let n = (of_char c :: nat)
      in if n < 0x80 then [c] else [char_of (0xC0 + n div 0x40), char_of (0x80 + n mod 0x40)])"

definition lineDelim :: char where
  "lineDelim = CHR 0x0A"

section \<open>ADC packets\<close>

text \<open>
  \<^verbatim>\<open>MsgType\<close> is \<^verbatim>\<open>[3]byte\<close> and a feature tag \<^verbatim>\<open>[4]byte\<close>; both are byte lists
  here. The types \<^verbatim>\<open>SID\<close> and \<^verbatim>\<open>CID\<close> and their wire conversions are declared
  in another file of package \<^verbatim>\<open>adc\<close>; the codec takes them as a parameter.
\<close>

type_synonym MsgType = bytes
type_synonym Feature = bytes

record ('sid, 'cid) adc_types =
  SID_UnmarshalAdc :: "bytes \<Rightarrow> error + 'sid"
  SID_MarshalAdc :: "'sid \<Rightarrow> bytes"
  CID_FromBase32 :: "bytes \<Rightarrow> error + 'cid"
  CID_ToBase32 :: "'cid \<Rightarrow> bytes"

datatype ('sid, 'cid) Packet =
    InfoPacket MsgType bytes
  | HubPacket MsgType bytes
  | BroadcastPacket MsgType bytes 'sid
  | DirectPacket MsgType bytes 'sid 'sid
  | EchoPacket MsgType bytes 'sid 'sid
  | ClientPacket MsgType bytes
  | FeaturePacket MsgType bytes 'sid "Feature \<rightharpoonup> bool"
  | UDPPacket MsgType bytes 'cid

text \<open>
  The constructors carry \<^verbatim>\<open>Name\<close>, \<^verbatim>\<open>Data\<close>, then \<^verbatim>\<open>ID\<close> and \<^verbatim>\<open>Targ\<close> or
  \<^verbatim>\<open>Features\<close>. A nil \<^verbatim>\<open>Data\<close> and an empty one are both \<open>[]\<close>; a nil
  \<^verbatim>\<open>Features\<close> map and an empty one are both \<open>Map.empty\<close>.
\<close>

subsection \<open>UnmarshalPacket, kind by kind\<close>

definition InfoPacket_UnmarshalPacket ::
  "MsgType \<Rightarrow> slice \<Rightarrow> error + ('sid, 'cid) Packet" where
  "InfoPacket_UnmarshalPacket name data =
     (if len data \<noteq> 0 \<and> vis data ! (len data - 1) \<noteq> lineDelim
      then Inl (Errorf ''invalid packet delimiter'')
      else bnd (if len data \<noteq> 0 then reslice_to data (len data - 1) else Inr data)
        (\<lambda>data. Inr (InfoPacket name (vis data))))"

definition HubPacket_UnmarshalPacket ::
  "MsgType \<Rightarrow> slice \<Rightarrow> error + ('sid, 'cid) Packet" where
  "HubPacket_UnmarshalPacket name data =
     (if len data < 1 then Inl (Errorf ''short hub command'')
      else if vis data ! (len data - 1) \<noteq> lineDelim
      then Inl (Errorf ''invalid packet delimiter'')
      else bnd (reslice_to data (len data - 1))
        (\<lambda>data. Inr (HubPacket name (vis data))))"

definition ClientPacket_UnmarshalPacket ::
  "MsgType \<Rightarrow> slice \<Rightarrow> error + ('sid, 'cid) Packet" where
  "ClientPacket_UnmarshalPacket name data =
     (if len data < 1 then Inl (Errorf ''short client command'')
      else if vis data ! (len data - 1) \<noteq> lineDelim
      then Inl (Errorf ''invalid packet delimiter'')
      else bnd (reslice_to data (len data - 1))
        (\<lambda>data. Inr (ClientPacket name (vis data))))"

definition BroadcastPacket_UnmarshalPacket ::
  "('sid, 'cid) adc_types \<Rightarrow> MsgType \<Rightarrow> slice \<Rightarrow> error + ('sid, 'cid) Packet" where
  "BroadcastPacket_UnmarshalPacket T name data =
     (if len data < 4 then Inl (Errorf ''short broadcast command'')
      else if vis data ! (len data - 1) \<noteq> lineDelim
      then Inl (Errorf ''invalid packet delimiter'')
      else if len data > 4 \<and> vis data ! 4 \<noteq> CHR '' '' \<and> vis data ! 4 \<noteq> lineDelim
      then bnd (reslice_to data 5)
        (\<lambda>s. Inl (Errorf (''separator expected: '' @ quoted (vis s))))
      else bnd (reslice_to data (len data - 1)) (\<lambda>data.
           bnd (reslice data 0 4) (\<lambda>b.
           bnd (SID_UnmarshalAdc T (vis b)) (\<lambda>ID.
           if len data > 5
           then bnd (reslice_from data 5) (\<lambda>d. Inr (BroadcastPacket name (vis d) ID))
           else Inr (BroadcastPacket name [] ID)))))"

definition DirectPacket_UnmarshalPacket ::
  "('sid, 'cid) adc_types \<Rightarrow> MsgType \<Rightarrow> slice \<Rightarrow> error + ('sid, 'cid) Packet" where
  "DirectPacket_UnmarshalPacket T name data =
     (if len data < 9 then Inl (Errorf ''short direct command'')
      else if vis data ! (len data - 1) \<noteq> lineDelim
      then Inl (Errorf ''invalid packet delimiter'')
      else if vis data ! 4 \<noteq> CHR '' ''
      then bnd (reslice_to data 9)
        (\<lambda>s. Inl (Errorf (''separator expected: '' @ quoted (vis s))))
      else if len data > 9 \<and> vis data ! 9 \<noteq> CHR '' '' \<and> vis data ! 9 \<noteq> lineDelim
      then bnd (reslice_to data 10)
        (\<lambda>s. Inl (Errorf (''separator expected: '' @ quoted (vis s))))
      else bnd (reslice_to data (len data - 1)) (\<lambda>data.
           bnd (reslice data 0 4) (\<lambda>b.
           bnd (SID_UnmarshalAdc T (vis b)) (\<lambda>ID.
           bnd (reslice data 5 9) (\<lambda>b.
           bnd (SID_UnmarshalAdc T (vis b)) (\<lambda>Targ.
           if len data > 10
           then bnd (reslice_from data 10) (\<lambda>d. Inr (DirectPacket name (vis d) ID Targ))
           else Inr (DirectPacket name [] ID Targ)))))))"

definition EchoPacket_UnmarshalPacket ::
  "('sid, 'cid) adc_types \<Rightarrow> MsgType \<Rightarrow> slice \<Rightarrow> error + ('sid, 'cid) Packet" where
  "EchoPacket_UnmarshalPacket T name data =
     (if len data < 9 then Inl (Errorf ''short echo command'')
      else if vis data ! (len data - 1) \<noteq> lineDelim
      then Inl (Errorf ''invalid packet delimiter'')
      else if vis data ! 4 \<noteq> CHR '' ''
      then bnd (reslice_to data 9)
        (\<lambda>s. Inl (Errorf (''separator expected: '' @ quoted (vis s))))
      else if len data > 9 \<and> vis data ! 9 \<noteq> CHR '' '' \<and> vis data ! 9 \<noteq> lineDelim
      then bnd (reslice_to data 10)
        (\<lambda>s. Inl (Errorf (''separator expected: '' @ quoted (vis s))))
      else bnd (reslice_to data (len data - 1)) (\<lambda>data.
           bnd (reslice data 0 4) (\<lambda>b.
           bnd (SID_UnmarshalAdc T (vis b)) (\<lambda>ID.
           bnd (reslice data 5 9) (\<lambda>b.
           bnd (SID_UnmarshalAdc T (vis b)) (\<lambda>Targ.
           if len data > 10
           then bnd (reslice_from data 10) (\<lambda>d. Inr (EchoPacket name (vis d) ID Targ))
           else Inr (EchoPacket name [] ID Targ)))))))"

definition UDPPacket_UnmarshalPacket ::
  "('sid, 'cid) adc_types \<Rightarrow> MsgType \<Rightarrow> slice \<Rightarrow> error + ('sid, 'cid) Packet" where
  "UDPPacket_UnmarshalPacket T name data =
     (let l = 39 in
      if len data < l then Inl (Errorf ''short upd command'')
      else if vis data ! (len data - 1) \<noteq> lineDelim
      then Inl (Errorf ''invalid packet delimiter'')
      else if len data > l \<and> vis data ! l \<noteq> CHR '' '' \<and> vis data ! l \<noteq> lineDelim
      then bnd (reslice_to data (l + 1))
        (\<lambda>s. Inl (Errorf (''separator expected: '' @ quoted (vis s))))
      else bnd (reslice_to data (len data - 1)) (\<lambda>data.
           bnd (reslice data 0 l) (\<lambda>b.
           case CID_FromBase32 T (vis b) of
             Inl (Errorf err) \<Rightarrow> Inl (Errorf (''wrong CID in upd command: '' @ err))
           | Inl (Panic m) \<Rightarrow> Inl (Panic m)
           | Inr ID \<Rightarrow>
               if len data > l + 1
               then bnd (reslice_from data (l + 1)) (\<lambda>d. Inr (UDPPacket name (vis d) ID))
               else Inr (UDPPacket name [] ID))))"

subsection \<open>The feature filter of a Feature packet\<close>

text \<open>
  One pass of the body of the loop of \<^verbatim>\<open>FeaturePacket.UnmarshalPacket\<close>, entered
  with \<^verbatim>\<open>i < len(data)\<close>. The result is the error returned, or whether the loop
  was left by \<^verbatim>\<open>break\<close>, with \<^verbatim>\<open>data\<close>, \<^verbatim>\<open>i\<close> and \<^verbatim>\<open>p.Features\<close> as the body
  leaves them (before the test \<^verbatim>\<open>i+1 == len(data)\<close> and the increment).
\<close>

definition feature_body ::
  "slice \<Rightarrow> nat \<Rightarrow> (Feature \<rightharpoonup> bool) \<Rightarrow> error + (bool \<times> slice \<times> nat \<times> (Feature \<rightharpoonup> bool))" where
  "feature_body data i Features =
     (if vis data ! i = CHR ''+'' then
        bnd (reslice_from data i) (\<lambda>f.
        if len f < 5
        then bnd (reslice data i (i + 5))
          (\<lambda>s. Inl (Errorf (''short feature: '' @ quoted (vis s))))
        else bnd (reslice data (i + 1) (i + 5))
          (\<lambda>fea. Inr (False, data, i + 4, Features(vis fea \<mapsto> True))))
      else if vis data ! i = CHR ''-'' then
        bnd (reslice_from data i) (\<lambda>f.
        if len f < 5
        then bnd (reslice data i (i + 5))
          (\<lambda>s. Inl (Errorf (''short feature: '' @ quoted (vis s))))
        else bnd (reslice data (i + 1) (i + 5))
          (\<lambda>fea. Inr (False, data, i + 4, Features(vis fea \<mapsto> False))))
      else if vis data ! i = CHR '' '' then
        bnd (reslice_from data i) (\<lambda>d. Inr (False, d, 0, Features))
      else
        bnd (reslice_from data i) (\<lambda>d. Inr (True, d, i, Features)))"

lemma feature_body_decreases:
  assumes "feature_body data i Features = Inr (False, d, j, F')" and "i < len data"
  shows "len (if j + 1 = len d then nil_slice else d) - (j + 1) < len data - i"
  using assms
  by (auto simp: feature_body_def bnd_def reslice_from_def reslice_def len_def cap_def
      nil_slice_def split: if_splits sum.splits)

function feature_loop ::
  "slice \<Rightarrow> nat \<Rightarrow> (Feature \<rightharpoonup> bool) \<Rightarrow> error + (slice \<times> (Feature \<rightharpoonup> bool))" where
  "feature_loop data i Features =
     (if i < len data then
        (case feature_body data i Features of
           Inl e \<Rightarrow> Inl e
         | Inr (brk, d, j, F') \<Rightarrow>
             if brk then Inr (d, F')
             else feature_loop (if j + 1 = len d then nil_slice else d) (j + 1) F')
      else Inr (data, Features))"
  by pat_completeness auto
termination
proof (relation "measure (\<lambda>(data, i, Features). len data - i)")
  show "wf (measure (\<lambda>(data, i, Features). len data - i))" by simp
next
  fix data :: slice and i :: nat and Features :: "Feature \<rightharpoonup> bool"
    and x2 x1 x2a x1a x2b x1b x2c
  assume "i < len data" and "feature_body data i Features = Inr x2"
    and "(x1, x2a) = x2" and "(x1a, x2b) = x2a" and "(x1b, x2c) = x2b" and "\<not> x1"
  then have "feature_body data i Features = Inr (False, x1a, x1b, x2c)" by auto
  from feature_body_decreases [OF this \<open>i < len data\<close>]
  show "((if x1b + 1 = len x1a then nil_slice else x1a, x1b + 1, x2c), data, i, Features)
        \<in> measure (\<lambda>(data, i, Features). len data - i)"
    by simp
qed

declare feature_loop.simps [simp del]

definition FeaturePacket_UnmarshalPacket ::
  "('sid, 'cid) adc_types \<Rightarrow> MsgType \<Rightarrow> slice \<Rightarrow> error + ('sid, 'cid) Packet" where
  "FeaturePacket_UnmarshalPacket T name data =
     (if len data < 4 then Inl (Errorf ''short feature command'')
      else if vis data ! (len data - 1) \<noteq> lineDelim
      then Inl (Errorf ''invalid packet delimiter'')
      else if len data > 4 \<and> vis data ! 4 \<noteq> CHR '' '' \<and> vis data ! 4 \<noteq> lineDelim
      then bnd (reslice_to data 5)
        (\<lambda>s. Inl (Errorf (''separator expected: '' @ quoted (vis s))))
      else bnd (reslice_to data (len data - 1)) (\<lambda>data.
           bnd (reslice data 0 4) (\<lambda>b.
           bnd (SID_UnmarshalAdc T (vis b)) (\<lambda>ID.
           bnd (if len data > 5 then reslice_from data 5 else Inr nil_slice) (\<lambda>data.
           bnd (feature_loop data 0 Map.empty) (\<lambda>(data, Features).
           Inr (FeaturePacket name (if len data > 0 then vis data else []) ID Features)))))))"

subsection \<open>DecodePacket\<close>

text \<open>
  \<^verbatim>\<open>m.UnmarshalPacket(cname, raw)\<close>, for the packet \<^verbatim>\<open>m\<close> that the switch on the
  kind byte has made.
\<close>

definition UnmarshalPacket ::
  "('sid, 'cid) adc_types \<Rightarrow> char \<Rightarrow> MsgType \<Rightarrow> slice \<Rightarrow> error + ('sid, 'cid) Packet" where
  "UnmarshalPacket T kind cname raw =
     (if kind = CHR ''I'' then InfoPacket_UnmarshalPacket cname raw
      else if kind = CHR ''H'' then HubPacket_UnmarshalPacket cname raw
      else if kind = CHR ''E'' then EchoPacket_UnmarshalPacket T cname raw
      else if kind = CHR ''D'' then DirectPacket_UnmarshalPacket T cname raw
      else if kind = CHR ''B'' then BroadcastPacket_UnmarshalPacket T cname raw
      else if kind = CHR ''F'' then FeaturePacket_UnmarshalPacket T cname raw
      else if kind = CHR ''C'' then ClientPacket_UnmarshalPacket cname raw
      else UDPPacket_UnmarshalPacket T cname raw)"

definition DecodePacket ::
  "('sid, 'cid) adc_types \<Rightarrow> slice \<Rightarrow> error + ('sid, 'cid) Packet" where
  "DecodePacket T p =
     (if len p < 5 then Inl (Errorf (''too short for command: '' @ quoted (vis p)))
      else if CHR 0x00 \<in> set (vis p)
      then Inl (Errorf ''messages should not contain null characters'')
      else
        let kind = vis p ! 0 in
        if kind \<notin> set ''IHEDBFCU''
        then Inl (Errorf (''unknown command kind: '' @ fmt_c kind))
        else
          bnd (reslice p 1 4) (\<lambda>cname.
          bnd (reslice_from p 4) (\<lambda>p.
          bnd (if len p > 0
               then (if vis p ! 0 = CHR '' '' then reslice_from p 1
                     else if vis p ! 0 \<noteq> lineDelim
                     then Inl (Errorf ''name separator expected'')
                     else Inr nil_slice)
               else Inr nil_slice) (\<lambda>raw.
          UnmarshalPacket T kind (vis cname) raw))))"

subsection \<open>MarshalPacket\<close>

text \<open>
  \<^verbatim>\<open>make([]byte, n)\<close> is \<open>n\<close> zero bytes with capacity \<open>n\<close>. An assignment
  \<^verbatim>\<open>buf[k] = c\<close> panics unless \<^verbatim>\<open>k < len(buf)\<close>; \<^verbatim>\<open>copy(buf[off:], src)\<close> panics
  unless \<^verbatim>\<open>off <= len(buf)\<close> and then copies as many bytes as fit.
\<close>

definition make_bytes :: "nat \<Rightarrow> bytes" where
  "make_bytes n = replicate n (CHR 0x00)"

definition put :: "bytes \<Rightarrow> nat \<Rightarrow> char \<Rightarrow> error + bytes" where
  "put buf k c =
     (if k < length buf then Inr (buf[k := c]) else Inl (Panic ''index out of range''))"

definition copy_to :: "bytes \<Rightarrow> nat \<Rightarrow> bytes \<Rightarrow> error + bytes" where
  "copy_to buf off src =
     (if off \<le> length buf
      then Inr (take off buf @ take (length buf - off) src @ drop (off + length src) buf)
      else Inl (Panic ''slice bounds out of range''))"

text \<open>
  \<^verbatim>\<open>InfoPacket\<close>, \<^verbatim>\<open>HubPacket\<close> and \<^verbatim>\<open>ClientPacket\<close> marshal by the same
  statements and differ in \<^verbatim>\<open>Kind()\<close> only; so do \<^verbatim>\<open>DirectPacket\<close> and
  \<^verbatim>\<open>EchoPacket\<close>.
\<close>

definition plain_MarshalPacket :: "char \<Rightarrow> MsgType \<Rightarrow> bytes \<Rightarrow> error + bytes" where
  "plain_MarshalPacket kind Name Data =
     (let n = 5;
          n = (if length Data > 0 then n + (1 + length Data) else n);
          buf = make_bytes n
      in bnd (put buf 0 kind) (\<lambda>buf.
         bnd (copy_to buf 1 Name) (\<lambda>buf.
         bnd (if length Data > 0
              then bnd (put buf 4 (CHR '' '')) (\<lambda>buf. copy_to buf 5 Data)
              else Inr buf) (\<lambda>buf.
         put buf (length buf - 1) lineDelim))))"

definition InfoPacket_MarshalPacket :: "MsgType \<Rightarrow> bytes \<Rightarrow> error + bytes" where
  "InfoPacket_MarshalPacket = plain_MarshalPacket (CHR ''I'')"

definition HubPacket_MarshalPacket :: "MsgType \<Rightarrow> bytes \<Rightarrow> error + bytes" where
  "HubPacket_MarshalPacket = plain_MarshalPacket (CHR ''H'')"

definition ClientPacket_MarshalPacket :: "MsgType \<Rightarrow> bytes \<Rightarrow> error + bytes" where
  "ClientPacket_MarshalPacket = plain_MarshalPacket (CHR ''C'')"

definition BroadcastPacket_MarshalPacket ::
  "('sid, 'cid) adc_types \<Rightarrow> MsgType \<Rightarrow> bytes \<Rightarrow> 'sid \<Rightarrow> error + bytes" where
  "BroadcastPacket_MarshalPacket T Name Data ID =
     (let n = 10;
          n = (if length Data > 0 then n + (1 + length Data) else n);
          buf = make_bytes n
      in bnd (put buf 0 (CHR ''B'')) (\<lambda>buf.
         bnd (copy_to buf 1 Name) (\<lambda>buf.
         bnd (put buf 4 (CHR '' '')) (\<lambda>buf.
         bnd (copy_to buf 5 (SID_MarshalAdc T ID)) (\<lambda>buf.
         bnd (if length Data > 0
              then bnd (put buf 9 (CHR '' '')) (\<lambda>buf. copy_to buf 10 Data)
              else Inr buf) (\<lambda>buf.
         put buf (length buf - 1) lineDelim))))))"

definition target_MarshalPacket ::
  "('sid, 'cid) adc_types \<Rightarrow> char \<Rightarrow> MsgType \<Rightarrow> bytes \<Rightarrow> 'sid \<Rightarrow> 'sid \<Rightarrow> error + bytes" where
  "target_MarshalPacket T kind Name Data ID Targ =
     (let n = 15;
          n = (if length Data > 0 then n + (1 + length Data) else n);
          buf = make_bytes n
      in bnd (put buf 0 kind) (\<lambda>buf.
         bnd (copy_to buf 1 Name) (\<lambda>buf.
         bnd (put buf 4 (CHR '' '')) (\<lambda>buf.
         bnd (copy_to buf 5 (SID_MarshalAdc T ID)) (\<lambda>buf.
         bnd (put buf 9 (CHR '' '')) (\<lambda>buf.
         bnd (copy_to buf 10 (SID_MarshalAdc T Targ)) (\<lambda>buf.
         bnd (if length Data > 0
              then bnd (put buf 14 (CHR '' '')) (\<lambda>buf. copy_to buf 15 Data)
              else Inr buf) (\<lambda>buf.
         put buf (length buf - 1) lineDelim))))))))"

definition DirectPacket_MarshalPacket ::
  "('sid, 'cid) adc_types \<Rightarrow> MsgType \<Rightarrow> bytes \<Rightarrow> 'sid \<Rightarrow> 'sid \<Rightarrow> error + bytes" where
  "DirectPacket_MarshalPacket T = target_MarshalPacket T (CHR ''D'')"

definition EchoPacket_MarshalPacket ::
  "('sid, 'cid) adc_types \<Rightarrow> MsgType \<Rightarrow> bytes \<Rightarrow> 'sid \<Rightarrow> 'sid \<Rightarrow> error + bytes" where
  "EchoPacket_MarshalPacket T = target_MarshalPacket T (CHR ''E'')"

text \<open>
  The second loop of \<^verbatim>\<open>FeaturePacket.MarshalPacket\<close>, over the entries of
  \<^verbatim>\<open>p.Features\<close> in the order \<^verbatim>\<open>range\<close> yields them, which Go leaves open: the
  entries are given as a list.
\<close>

fun feature_write :: "bytes \<Rightarrow> nat \<Rightarrow> (Feature \<times> bool) list \<Rightarrow> error + (bytes \<times> nat)" where
  "feature_write buf off [] = Inr (buf, off)"
| "feature_write buf off ((k, v) # kvs) =
     bnd (put buf off (CHR '' '')) (\<lambda>buf.
     bnd (put buf (off + 1) (if v then CHR ''+'' else CHR ''-'')) (\<lambda>buf.
     bnd (copy_to buf (off + 2) k) (\<lambda>buf'.
     let n = min (length buf - (off + 2)) (length k)
     in feature_write buf' (off + (2 + n)) kvs)))"

definition FeaturePacket_MarshalPacket ::
  "('sid, 'cid) adc_types \<Rightarrow> MsgType \<Rightarrow> bytes \<Rightarrow> 'sid \<Rightarrow> (Feature \<times> bool) list \<Rightarrow> error + bytes" where
  "FeaturePacket_MarshalPacket T Name Data ID Features =
     (let n = 10;
          n = (if length Data > 0 then n + (1 + length Data) else n);
          n = fold (\<lambda>(k, v) n. n + (2 + length k)) Features n;
          buf = make_bytes n
      in bnd (put buf 0 (CHR ''F'')) (\<lambda>buf.
         bnd (copy_to buf 1 Name) (\<lambda>buf.
         bnd (put buf 4 (CHR '' '')) (\<lambda>buf.
         bnd (copy_to buf 5 (SID_MarshalAdc T ID)) (\<lambda>buf.
         bnd (feature_write buf 9 Features) (\<lambda>(buf, off).
         bnd (if length Data > 0
              then bnd (put buf off (CHR '' '')) (\<lambda>buf. copy_to buf (off + 1) Data)
              else Inr buf) (\<lambda>buf.
         put buf (length buf - 1) lineDelim)))))))"

definition UDPPacket_MarshalPacket ::
  "('sid, 'cid) adc_types \<Rightarrow> MsgType \<Rightarrow> bytes \<Rightarrow> 'cid \<Rightarrow> error + bytes" where
  "UDPPacket_MarshalPacket T Name Data ID =
     (let n = 39 + 5 + 1;
          n = (if length Data > 0 then n + (1 + length Data) else n);
          buf = make_bytes n
      in bnd (put buf 0 (CHR ''U'')) (\<lambda>buf.
         bnd (copy_to buf 1 Name) (\<lambda>buf.
         bnd (put buf 4 (CHR '' '')) (\<lambda>buf.
         bnd (copy_to buf 5 (CID_ToBase32 T ID)) (\<lambda>buf.
         bnd (if length Data > 0
              then bnd (put buf (5 + 39) (CHR '' '')) (\<lambda>buf. copy_to buf (5 + 39 + 1) Data)
              else Inr buf) (\<lambda>buf.
         put buf (length buf - 1) lineDelim))))))"

text \<open>
  \<^verbatim>\<open>MarshalPacket\<close> through the \<^verbatim>\<open>Packet\<close> interface. \<open>order\<close> lists the entries
  of a feature map in the order the \<^verbatim>\<open>range\<close> statement visits them.
\<close>

fun MarshalPacket ::
  "('sid, 'cid) adc_types \<Rightarrow> ((Feature \<rightharpoonup> bool) \<Rightarrow> (Feature \<times> bool) list) \<Rightarrow>
   ('sid, 'cid) Packet \<Rightarrow> error + bytes" where
  "MarshalPacket T order (InfoPacket Name Data) = InfoPacket_MarshalPacket Name Data"
| "MarshalPacket T order (HubPacket Name Data) = HubPacket_MarshalPacket Name Data"
| "MarshalPacket T order (BroadcastPacket Name Data ID) =
     BroadcastPacket_MarshalPacket T Name Data ID"
| "MarshalPacket T order (DirectPacket Name Data ID Targ) =
     DirectPacket_MarshalPacket T Name Data ID Targ"
| "MarshalPacket T order (EchoPacket Name Data ID Targ) =
     EchoPacket_MarshalPacket T Name Data ID Targ"
| "MarshalPacket T order (ClientPacket Name Data) = ClientPacket_MarshalPacket Name Data"
| "MarshalPacket T order (FeaturePacket Name Data ID Features) =
     FeaturePacket_MarshalPacket T Name Data ID (order Features)"
| "MarshalPacket T order (UDPPacket Name Data ID) = UDPPacket_MarshalPacket T Name Data ID"

definition from_make :: "bytes \<Rightarrow> slice" where
  \<comment> \<open>a buffer as \<^verbatim>\<open>make\<close> allocates it: its capacity is its length\<close>
  "from_make buf = \<lparr>vis = buf, ext = []\<rparr>"

text \<open>Decoding what \<^verbatim>\<open>MarshalPacket\<close> returned.\<close>

definition decode_marshalled ::
  "('sid, 'cid) adc_types \<Rightarrow> ((Feature \<rightharpoonup> bool) \<Rightarrow> (Feature \<times> bool) list) \<Rightarrow>
   ('sid, 'cid) Packet \<Rightarrow> error + ('sid, 'cid) Packet" where
  "decode_marshalled T order p =
     bnd (MarshalPacket T order p) (\<lambda>buf. DecodePacket T (from_make buf))"

section \<open>The hub: user names and registration\<close>

subsection \<open>The library functions of package strings\<close>

text \<open>
  \<^verbatim>\<open>strings.TrimSpace\<close> removes, from both ends of a string, every rune for which
  \<^verbatim>\<open>unicode.IsSpace\<close> holds. A Go string is a byte sequence in UTF-8, so such a rune
  at either end shows as one of the byte sequences of \<open>space_runes\<close>: the six ASCII
  ones, U+0085, U+00A0, U+1680, U+2000 to U+200A, U+2028, U+2029, U+202F, U+205F and
  U+3000.
\<close>

definition space_runes :: "bytes list" where
  "space_runes =
     [[CHR 0x09], [CHR 0x0A], [CHR 0x0B], [CHR 0x0C], [CHR 0x0D], [CHR 0x20],
      [CHR 0xC2, CHR 0x85], [CHR 0xC2, CHR 0xA0], [CHR 0xE1, CHR 0x9A, CHR 0x80],
      [CHR 0xE2, CHR 0x80, CHR 0x80], [CHR 0xE2, CHR 0x80, CHR 0x81],
      [CHR 0xE2, CHR 0x80, CHR 0x82], [CHR 0xE2, CHR 0x80, CHR 0x83],
      [CHR 0xE2, CHR 0x80, CHR 0x84], [CHR 0xE2, CHR 0x80, CHR 0x85],
      [CHR 0xE2, CHR 0x80, CHR 0x86], [CHR 0xE2, CHR 0x80, CHR 0x87],
      [CHR 0xE2, CHR 0x80, CHR 0x88], [CHR 0xE2, CHR 0x80, CHR 0x89],
      [CHR 0xE2, CHR 0x80, CHR 0x8A], [CHR 0xE2, CHR 0x80, CHR 0xA8],
      [CHR 0xE2, CHR 0x80, CHR 0xA9], [CHR 0xE2, CHR 0x80, CHR 0xAF],
      [CHR 0xE2, CHR 0x81, CHR 0x9F], [CHR 0xE3, CHR 0x80, CHR 0x80]]"

definition leading_space :: "bytes \<Rightarrow> bytes option" where
  "leading_space s = find (\<lambda>q. prefix q s) space_runes"

definition trailing_space :: "bytes \<Rightarrow> bytes option" where
  "trailing_space s = find (\<lambda>q. suffix q s) space_runes"

lemma space_runes_nonempty: "q \<in> set space_runes \<Longrightarrow> q \<noteq> []"
  by (auto simp: space_runes_def)

lemma leading_space_Some: "leading_space s = Some q \<Longrightarrow> q \<noteq> [] \<and> prefix q s"
  unfolding leading_space_def find_Some_iff
  using space_runes_nonempty by (metis nth_mem)

lemma trailing_space_Some: "trailing_space s = Some q \<Longrightarrow> q \<noteq> [] \<and> suffix q s"
  unfolding trailing_space_def find_Some_iff
  using space_runes_nonempty by (metis nth_mem)

function TrimLeft_space :: "bytes \<Rightarrow> bytes" where
  "TrimLeft_space s =
     (case leading_space s of None \<Rightarrow> s | Some q \<Rightarrow> TrimLeft_space (drop (length q) s))"
  by pat_completeness auto
termination
proof (relation "measure length")
  show "wf (measure length)" by simp
next
  fix s q :: bytes
  assume "leading_space s = Some q"
  then have "q \<noteq> []" and "prefix q s" using leading_space_Some by blast+
  then have "length q \<le> length s" and "0 < length q" by (auto simp: prefix_length_le)
  then show "(drop (length q) s, s) \<in> measure length" by (cases q) auto
qed

function TrimRight_space :: "bytes \<Rightarrow> bytes" where
  "TrimRight_space s =
     (case trailing_space s of None \<Rightarrow> s
      | Some q \<Rightarrow> TrimRight_space (take (length s - length q) s))"
  by pat_completeness auto
termination
proof (relation "measure length")
  show "wf (measure length)" by simp
next
  fix s q :: bytes
  assume "trailing_space s = Some q"
  then have "q \<noteq> []" and "suffix q s" using trailing_space_Some by blast+
  then have "length q \<le> length s" and "0 < length q" by (auto simp: suffix_length_le)
  then show "(take (length s - length q) s, s) \<in> measure length" by (cases q) auto
qed

declare TrimLeft_space.simps [simp del] TrimRight_space.simps [simp del]

definition TrimSpace :: "string \<Rightarrow> string" where
  "TrimSpace s = TrimRight_space (TrimLeft_space s)"

definition HasPrefix :: "string \<Rightarrow> string \<Rightarrow> bool" where
  "HasPrefix s pre = prefix pre s"

subsection \<open>users.go\<close>

text \<open>
  Modelled from the spec: the struct \<^verbatim>\<open>Hub\<close> is declared in a file that is not
  among the sources. The record has the parts of it that the functions here read: the
  optional user database, the index of the live peers by name, and the reserved names
  (the spec's PeerDirectory and NameRegistry).
\<close>

record ('db, 'peer) Hub =
  userDB :: "'db option"
  byName :: "string \<rightharpoonup> 'peer"
  reserved :: "string set"

definition ErrUserRegDisabled :: error where
  "ErrUserRegDisabled = Errorf ''user registration is disabled''"

text \<open>
  The interface \<^verbatim>\<open>UserDatabase\<close>: an implementation is a state \<open>'db\<close> with the three
  methods; a method that changes the database returns its new state.
\<close>

record 'db UserDatabase =
  db_IsRegistered :: "'db \<Rightarrow> string \<Rightarrow> bool \<times> error option"
  db_GetUserPassword :: "'db \<Rightarrow> string \<Rightarrow> string \<times> error option"
  db_RegisterUser :: "'db \<Rightarrow> string \<Rightarrow> string \<Rightarrow> 'db \<times> error option"

definition validateUserName :: "('db, 'peer) Hub \<Rightarrow> string \<Rightarrow> error option" where
  "validateUserName h name =
     (if name = '''' then Some (Errorf ''name should be empty'')
      else if HasPrefix name ''#''
      then Some (Errorf (''name should not start with '' @ quoted ''#''))
      else if HasPrefix name ''!''
      then Some (Errorf (''name should not start with '' @ quoted ''!''))
      else if name \<noteq> TrimSpace name
      then Some (Errorf ''name should not start or end with spaces'')
      else None)"

definition Hub_RegisterUser ::
  "'db UserDatabase \<Rightarrow> ('db, 'peer) Hub \<Rightarrow> string \<Rightarrow> string \<Rightarrow> ('db, 'peer) Hub \<times> error option" where
  "Hub_RegisterUser I h name pass =
     (case userDB h of
        None \<Rightarrow> (h, Some ErrUserRegDisabled)
      | Some db \<Rightarrow>
          (case db_RegisterUser I db name pass of (db', err) \<Rightarrow> (h\<lparr>userDB := Some db'\<rparr>, err)))"

definition Hub_IsRegistered ::
  "'db UserDatabase \<Rightarrow> ('db, 'peer) Hub \<Rightarrow> string \<Rightarrow> bool \<times> error option" where
  "Hub_IsRegistered I h name =
     (case userDB h of None \<Rightarrow> (False, None) | Some db \<Rightarrow> db_IsRegistered I db name)"

text \<open>The in-memory database \<^verbatim>\<open>memUsersDB\<close>: the map \<^verbatim>\<open>users\<close>.\<close>

type_synonym memUsersDB = "string \<rightharpoonup> string"

definition NewUserDatabase :: memUsersDB where
  "NewUserDatabase = Map.empty"

definition memUsersDB_IsRegistered :: "memUsersDB \<Rightarrow> string \<Rightarrow> bool \<times> error option" where
  "memUsersDB_IsRegistered db name = (db name \<noteq> None, None)"

definition memUsersDB_GetUserPassword :: "memUsersDB \<Rightarrow> string \<Rightarrow> string \<times> error option" where
  "memUsersDB_GetUserPassword db name = ((case db name of None \<Rightarrow> '''' | Some pass \<Rightarrow> pass), None)"

definition memUsersDB_RegisterUser ::
  "memUsersDB \<Rightarrow> string \<Rightarrow> string \<Rightarrow> memUsersDB \<times> error option" where
  "memUsersDB_RegisterUser db name pass = (db(name \<mapsto> pass), None)"

definition memUsersDB_methods :: "memUsersDB UserDatabase" where
  "memUsersDB_methods =
     \<lparr>db_IsRegistered = memUsersDB_IsRegistered,
      db_GetUserPassword = memUsersDB_GetUserPassword,
      db_RegisterUser = memUsersDB_RegisterUser\<rparr>"

text \<open>
  Modelled from the spec: \<^verbatim>\<open>Hub.nameAvailable\<close>, \<^verbatim>\<open>Hub.reserveName\<close> and
  \<^verbatim>\<open>Hub.PeerByName\<close> are declared in a file that is not among the sources. A name
  is available iff no live and no reserved entry holds it; reserving checks the
  availability and, on success, installs a reservation keyed by the name; the lookup
  by name returns the live peer, or nothing.
\<close>

definition nameAvailable :: "('db, 'peer) Hub \<Rightarrow> string \<Rightarrow> bool" where
  "nameAvailable h name \<longleftrightarrow> byName h name = None \<and> name \<notin> reserved h"

definition reserveName :: "('db, 'peer) Hub \<Rightarrow> string \<Rightarrow> ('db, 'peer) Hub \<times> bool" where
  "reserveName h name =
     (if nameAvailable h name then (h\<lparr>reserved := insert name (reserved h)\<rparr>, True)
      else (h, False))"

definition PeerByName :: "('db, 'peer) Hub \<Rightarrow> string \<Rightarrow> 'peer option" where
  "PeerByName h name = byName h name"

section \<open>The IRC bridge\<close>

text \<open>
  \<^verbatim>\<open>irc.Prefix\<close> and \<^verbatim>\<open>irc.Message\<close> of the IRC library.
\<close>

record irc_Prefix =
  pName :: string
  pUser :: string
  pHost :: string

record irc_Message =
  Prefix :: "irc_Prefix option"
  Command :: string
  Params :: "string list"

definition io_EOF :: error where
  "io_EOF = Errorf ''EOF''"

definition Error :: "error \<Rightarrow> string" where
  "Error err = (case err of Errorf m \<Rightarrow> m | Panic m \<Rightarrow> m)"

subsection \<open>The NICK loop of ircHandshake\<close>

text \<open>
  The reads of one pass of the loop: a \<^verbatim>\<open>NICK\<close> and, while no name has been seen,
  a \<^verbatim>\<open>USER\<close>. Each read has a deadline; when the list of read results ends, the
  read fails by it.
\<close>

definition read_nick ::
  "string \<Rightarrow> string \<Rightarrow> (error + irc_Message) list \<Rightarrow>
   error + (string \<times> string \<times> (error + irc_Message) list)" where
  "read_nick name user reads =
     (case reads of
        [] \<Rightarrow> Inl (Errorf ''expected nick: i/o timeout'')
      | Inl err # _ \<Rightarrow> Inl (Errorf (''expected nick: '' @ Error err))
      | Inr m # reads \<Rightarrow>
          if Command m \<noteq> ''NICK'' \<or> length (Params m) \<noteq> 1
          then Inl (Errorf ''expected nick, got: '')
          else
            let tname = Params m ! 0 in
            if name = '''' then
              (case reads of
                 [] \<Rightarrow> Inl (Errorf ''expected user: i/o timeout'')
               | Inl err # _ \<Rightarrow> Inl (Errorf (''expected user: '' @ Error err))
               | Inr m # reads \<Rightarrow>
                   if Command m \<noteq> ''USER'' \<or> length (Params m) \<noteq> 4
                   then Inl (Errorf ''expected user, got: '')
                   else Inr (tname, Params m ! 0, reads))
            else Inr (tname, user, reads))"

lemma read_nick_shorter:
  "read_nick name0 user0 reads = Inr (tname, usr, rest) \<Longrightarrow> length rest < length reads"
  by (auto simp: read_nick_def Let_def split: list.splits sum.splits if_splits)

definition reply_433 :: "irc_Prefix \<Rightarrow> string \<Rightarrow> string \<Rightarrow> irc_Message" where
  "reply_433 pref name reason =
     \<lparr>Prefix = Some pref, Command = ''433'', Params = [''*'', name, reason]\<rparr>"

text \<open>
  The loop, lines 91 to 140. \<open>taken\<close> is the text of \<^verbatim>\<open>errNickTaken\<close>, a variable
  declared in a file that is not among the sources. The result is the error that
  \<^verbatim>\<open>ircHandshake\<close> returns from inside the loop, or the state at the \<^verbatim>\<open>break\<close>: the
  hub with the name reserved, the name, the user and the reads left; with it come
  the messages written to the connection, in order.
\<close>

function ircHandshake_loop ::
  "string \<Rightarrow> ('db, 'peer) Hub \<Rightarrow> irc_Prefix \<Rightarrow> string \<Rightarrow> string \<Rightarrow> (error + irc_Message) list \<Rightarrow>
   (error + (('db, 'peer) Hub \<times> string \<times> string \<times> (error + irc_Message) list)) \<times>
   irc_Message list" where
  "ircHandshake_loop taken h pref name user reads =
     (case read_nick name user reads of
        Inl err \<Rightarrow> (Inl err, [])
      | Inr (tname, user, reads) \<Rightarrow>
          (case validateUserName h tname of
             Some err \<Rightarrow> (Inl err, [])
           | None \<Rightarrow>
               if \<not> nameAvailable h tname
               then (case ircHandshake_loop taken h pref tname user reads of
                       (r, out) \<Rightarrow> (r, reply_433 pref tname taken # out))
               else
                 (case reserveName h tname of
                    (h', ok) \<Rightarrow>
                      if ok then (Inr (h', tname, user, reads), [])
                      else (case ircHandshake_loop taken h' pref tname user reads of
                              (r, out) \<Rightarrow> (r, reply_433 pref tname taken # out)))))"
  by pat_completeness auto
termination
proof (relation "measure (\<lambda>(taken, h, pref, name, user, reads). length reads)")
  show "wf (measure (\<lambda>(taken, h, pref, name, user, reads). length reads))" by simp
qed (auto dest: read_nick_shorter)

declare ircHandshake_loop.simps [simp del]

subsection \<open>Peers\<close>

text \<open>
  The hub's chat \<^verbatim>\<open>Message\<close>, and the fields of \<^verbatim>\<open>ircPeer\<close> that the functions
  here touch (\<^verbatim>\<open>sid\<close> is the one of the embedded \<^verbatim>\<open>BasePeer\<close>).
\<close>

record Message =
  Name :: string
  Text :: string

record ircPeer =
  hostPref :: irc_Prefix
  ownPref :: irc_Prefix
  name :: string
  sid :: nat
  closed :: bool

text \<open>
  Peers are held by pointer. A store gives the \<^verbatim>\<open>ircPeer\<close> at each address; a value
  of the interface \<^verbatim>\<open>Peer\<close> is a pointer to an \<^verbatim>\<open>ircPeer\<close> or a peer of another
  protocol. Modelled from the spec: \<^verbatim>\<open>Room\<close> is declared in a file that is not
  among the sources; a room has a name, and the main hub chat is the room named
  \<^verbatim>\<open>""\<close>.
\<close>

type_synonym store = "nat \<Rightarrow> ircPeer"

datatype Peer = ircPeer_ptr nat | other_Peer nat

record Room =
  Room_Name :: string

text \<open>
  What a function does to the world outside, in order: a message handed to the
  connection of the \<^verbatim>\<open>ircPeer\<close> at an address, the closing of its connection, and
  the calls into the parts of the hub that are not among the sources.
\<close>

datatype event =
    WriteMessage nat irc_Message
  | conn_Close nat
  | hub_leave nat nat string
  | globalChat_SendChat Peer string
  | call_PrivateMsg Peer Peer Message
  | log_Printf

definition ircHubChan :: string where
  "ircHubChan = ''#hub''"

text \<open>
  \<^verbatim>\<open>writeMessage\<close> hands the message to the connection; \<open>io\<close> is the answer of the
  connection, an error or none.
\<close>

definition ircPeer_writeMessage ::
  "(irc_Message \<Rightarrow> error option) \<Rightarrow> nat \<Rightarrow> irc_Message \<Rightarrow> error option \<times> event list" where
  "ircPeer_writeMessage io p m = (io m, [WriteMessage p m])"

definition ircPeer_Name :: "store \<Rightarrow> nat \<Rightarrow> string" where
  "ircPeer_Name st p = name (st p)"

text \<open>
  \<^verbatim>\<open>Close\<close> runs under \<^verbatim>\<open>closeMu\<close>, so calls on one peer run one after another.
  \<open>cerr\<close> is what \<^verbatim>\<open>p.conn.Close()\<close> returns when it is called.
\<close>

definition ircPeer_Close ::
  "error option \<Rightarrow> nat \<Rightarrow> store \<Rightarrow> error option \<times> store \<times> event list" where
  "ircPeer_Close cerr p st =
     (if closed (st p) then (None, st, [])
      else (cerr, st(p := (st p)\<lparr>closed := True\<rparr>),
            [conn_Close p, hub_leave p (sid (st p)) (name (st p))]))"

text \<open>A sequence of calls of \<^verbatim>\<open>Close\<close> on one peer, one for each element of the list.\<close>

fun Close_calls ::
  "error option list \<Rightarrow> nat \<Rightarrow> store \<Rightarrow> error option list \<times> store \<times> event list" where
  "Close_calls [] p st = ([], st, [])"
| "Close_calls (cerr # cerrs) p st =
     (case ircPeer_Close cerr p st of (r, st', ev) \<Rightarrow>
        (case Close_calls cerrs p st' of (rs, st'', evs) \<Rightarrow> (r # rs, st'', ev @ evs)))"

definition ircPeer_ChatMsg ::
  "(irc_Message \<Rightarrow> error option) \<Rightarrow> store \<Rightarrow> nat \<Rightarrow> Room \<Rightarrow> Peer \<Rightarrow> Message \<Rightarrow>
   error option \<times> event list" where
  "ircPeer_ChatMsg io st p room from msg =
     (if ircPeer_ptr p = from then (None, [])
      else if Room_Name room \<noteq> '''' then (None, [])
      else
        let m = \<lparr>Prefix = None, Command = ''PRIVMSG'', Params = [ircHubChan, Text msg]\<rparr>;
            m = (case from of
                   ircPeer_ptr p2 \<Rightarrow> m\<lparr>Prefix := Some (ownPref (st p2))\<rparr>
                 | other_Peer _ \<Rightarrow>
                     m\<lparr>Prefix := Some \<lparr>pName = Name msg, pUser = Name msg,
                                        pHost = pName (hostPref (st p))\<rparr>\<rparr>)
        in ircPeer_writeMessage io p m)"

definition ircPeer_PrivateMsg ::
  "(irc_Message \<Rightarrow> error option) \<Rightarrow> store \<Rightarrow> nat \<Rightarrow> Peer \<Rightarrow> Message \<Rightarrow>
   error option \<times> event list" where
  "ircPeer_PrivateMsg io st p from msg =
     (let m = \<lparr>Prefix = None, Command = ''PRIVMSG'', Params = [ircPeer_Name st p, Text msg]\<rparr>;
          m = (case from of
                 ircPeer_ptr p2 \<Rightarrow> m\<lparr>Prefix := Some (ownPref (st p2))\<rparr>
               | other_Peer _ \<Rightarrow>
                   m\<lparr>Prefix := Some \<lparr>pName = Name msg, pUser = Name msg,
                                      pHost = pName (hostPref (st p))\<rparr>\<rparr>)
      in ircPeer_writeMessage io p m)"

subsection \<open>The message loop of ServeIRC\<close>

text \<open>
  Modelled from the spec: \<^verbatim>\<open>Hub.privateChat\<close> is declared in a file that is not
  among the sources; it invokes the target's \<^verbatim>\<open>PrivateMsg\<close> with the sender and
  the message.
\<close>

definition privateChat :: "Peer \<Rightarrow> Peer \<Rightarrow> Message \<Rightarrow> event list" where
  "privateChat from to m = [call_PrivateMsg to from m]"

definition and_then :: "event list \<Rightarrow> 'a \<times> event list \<Rightarrow> 'a \<times> event list" where
  "and_then ev r = (case r of (x, evs) \<Rightarrow> (x, ev @ evs))"

text \<open>
  The loop of \<^verbatim>\<open>ServeIRC\<close> after the handshake, over the results of the calls of
  \<^verbatim>\<open>readMessage\<close>; when the list ends the peer has closed the connection
  (\<^verbatim>\<open>io.EOF\<close>). The result is what \<^verbatim>\<open>ServeIRC\<close> returns, and the events in order.
  The text that \<^verbatim>\<open>%#v\<close> prints is left out of the error message.
\<close>

fun ServeIRC_loop ::
  "('db, Peer) Hub \<Rightarrow> store \<Rightarrow> (irc_Message \<Rightarrow> error option) \<Rightarrow> nat \<Rightarrow>
   (error + irc_Message) list \<Rightarrow> error option \<times> event list" where
  "ServeIRC_loop h st io peer [] = (None, [])"
| "ServeIRC_loop h st io peer (Inl err # reads) =
     (if err = io_EOF then (None, []) else (Some err, []))"
| "ServeIRC_loop h st io peer (Inr m # reads) =
     (if Command m = ''PING'' then
        (case ircPeer_writeMessage io peer (m\<lparr>Command := ''PONG''\<rparr>) of
           (Some err, ev) \<Rightarrow> (Some err, ev)
         | (None, ev) \<Rightarrow> and_then ev (ServeIRC_loop h st io peer reads))
      else if Command m = ''PRIVMSG'' then
        (if length (Params m) \<noteq> 2 then (Some (Errorf ''invalid chat command: ''), [])
         else
           let dst = Params m ! 0; msg = Params m ! 1 in
           if dst = ircHubChan
           then and_then [globalChat_SendChat (ircPeer_ptr peer) msg]
                  (ServeIRC_loop h st io peer reads)
           else (case PeerByName h dst of
                   Some dst \<Rightarrow>
                     and_then
                       (privateChat (ircPeer_ptr peer) dst
                          \<lparr>Name = ircPeer_Name st peer, Text = msg\<rparr>)
                       (ServeIRC_loop h st io peer reads)
                 | None \<Rightarrow> ServeIRC_loop h st io peer reads))
      else if Command m = ''QUIT'' then (None, [])
      else and_then [log_Printf] (ServeIRC_loop h st io peer reads))"

section \<open>Frames and names as the specification describes them\<close>

subsection \<open>The region after the source SID of a Feature frame\<close>

text \<open>
  The region is a sequence of separating spaces and feature tokens, a token being a
  sigil (\<^verbatim>\<open>+\<close> for a required feature, \<^verbatim>\<open>-\<close> for a forbidden one) and a tag,
  followed by the payload. A payload is empty or starts with a byte that is neither a
  space nor a sigil.
\<close>

datatype item = Sp | Tok bool Feature

definition sigil :: "bool \<Rightarrow> char" where
  "sigil b = (if b then CHR ''+'' else CHR ''-'')"

fun render_item :: "item \<Rightarrow> bytes" where
  "render_item Sp = '' ''"
| "render_item (Tok b t) = sigil b # t"

definition render :: "item list \<Rightarrow> bytes" where
  "render items = concat (map render_item items)"

fun put_item :: "item \<Rightarrow> (Feature \<rightharpoonup> bool) \<Rightarrow> (Feature \<rightharpoonup> bool)" where
  "put_item Sp F = F"
| "put_item (Tok b t) F = F(t \<mapsto> b)"

fun tag_ok :: "item \<Rightarrow> bool" where
  "tag_ok Sp = True"
| "tag_ok (Tok b t) = (length t = 4)"

definition payload_start :: "bytes \<Rightarrow> bool" where
  "payload_start pl \<longleftrightarrow>
     (case pl of [] \<Rightarrow> True | c # _ \<Rightarrow> c \<noteq> CHR '' '' \<and> c \<noteq> CHR ''+'' \<and> c \<noteq> CHR ''-'')"

definition feature_frame :: "MsgType \<Rightarrow> bytes \<Rightarrow> bytes \<Rightarrow> bytes" where
  "feature_frame nm sidb region = CHR ''F'' # nm @ CHR '' '' # sidb @ region @ [lineDelim]"

subsection \<open>SID and CID as their text\<close>

text \<open>
  Modelled from the spec: the types \<^verbatim>\<open>SID\<close> and \<^verbatim>\<open>CID\<close> and their methods are
  declared in a file that is not among the sources. A SID is 4 characters and a CID
  39 characters of the base32 alphabet; here each is held as that text.
\<close>

definition base32_char :: "char \<Rightarrow> bool" where
  "base32_char c \<longleftrightarrow> c \<in> set ''ABCDEFGHIJKLMNOPQRSTUVWXYZ234567''"

definition text_types :: "(bytes, bytes) adc_types" where
  "text_types =
     \<lparr>SID_UnmarshalAdc =
        (\<lambda>b. if length b = 4 \<and> list_all base32_char b then Inr b
             else Inl (Errorf ''malformed SID'')),
      SID_MarshalAdc = (\<lambda>s. s),
      CID_FromBase32 =
        (\<lambda>b. if length b = 39 \<and> list_all base32_char b then Inr b
             else Inl (Errorf ''malformed CID'')),
      CID_ToBase32 = (\<lambda>c. c)\<rparr>"

subsection \<open>The Nickname rules\<close>

text \<open>
  The rules in the words of the specification: a printable non-empty byte string, not
  starting with \<^verbatim>\<open>#\<close> or \<^verbatim>\<open>!\<close>, with no leading or trailing whitespace. A byte is
  taken as printable unless it is an ASCII control character.
\<close>

definition printable_byte :: "char \<Rightarrow> bool" where
  "printable_byte c \<longleftrightarrow> 0x20 \<le> (of_char c :: nat) \<and> (of_char c :: nat) \<noteq> 0x7F"

definition Nickname_rules :: "string \<Rightarrow> bool" where
  "Nickname_rules s \<longleftrightarrow>
     list_all printable_byte s \<and> s \<noteq> [] \<and> \<not> HasPrefix s ''#'' \<and> \<not> HasPrefix s ''!'' \<and>
     leading_space s = None \<and> trailing_space s = None"

text \<open>A hub with no user database, no peer and no reserved name.\<close>

definition empty_Hub :: "('db, 'peer) Hub" where
  "empty_Hub = \<lparr>userDB = None, byName = Map.empty, reserved = {}\<rparr>"

subsection \<open>Frames as MarshalPacket lays them out\<close>

text \<open>
  After the header comes the payload, if there is one, behind a space. The feature
  filter of a Feature frame is a token behind a space for each entry of the map.
\<close>

definition payload_part :: "bytes \<Rightarrow> bytes" where
  "payload_part d = (if d = [] then [] else CHR '' '' # d)"

definition tokens :: "(Feature \<times> bool) list \<Rightarrow> bytes" where
  "tokens kvs = concat (map (\<lambda>(t, b). CHR '' '' # sigil b # t) kvs)"

definition tags4 :: "(Feature \<times> bool) list \<Rightarrow> bool" where
  "tags4 kvs = list_all (\<lambda>(t, b). length t = 4) kvs"

text \<open>
  The region of a Feature frame as a sequence of spaces and tokens: the tokens of the
  entries, a space between two of them and a space before a payload.
\<close>

fun items_of :: "(Feature \<times> bool) list \<Rightarrow> bytes \<Rightarrow> item list" where
  "items_of [] d = []"
| "items_of ((t, b) # kvs) d = Tok b t # (if kvs = [] \<and> d = [] then [] else Sp # items_of kvs d)"

definition zeros :: "nat \<Rightarrow> bytes" where
  "zeros n = replicate n (CHR 0x00)"

subsection \<open>Well-formed packets\<close>

text \<open>
  A packet is well-formed when its name has 3 bytes, no part of it holds a null byte,
  its SIDs and its CID go to 4 and 39 bytes of text that their decoders read back,
  the tags of its features have 4 bytes, and \<open>order\<close> lists each entry of its
  feature map once. The payload of a Feature packet, which follows the feature
  filter on the wire, is empty or starts with a byte that is neither a space nor a
  sigil. A Hub or Client packet with no payload is \<open>bare\<close>.
\<close>

definition name_wf :: "MsgType \<Rightarrow> bool" where
  "name_wf nm \<longleftrightarrow> length nm = 3 \<and> CHR 0x00 \<notin> set nm"

definition SID_wf :: "('sid, 'cid) adc_types \<Rightarrow> 'sid \<Rightarrow> bool" where
  "SID_wf T s \<longleftrightarrow>
     length (SID_MarshalAdc T s) = 4 \<and> CHR 0x00 \<notin> set (SID_MarshalAdc T s) \<and>
     SID_UnmarshalAdc T (SID_MarshalAdc T s) = Inr s"

definition CID_wf :: "('sid, 'cid) adc_types \<Rightarrow> 'cid \<Rightarrow> bool" where
  "CID_wf T c \<longleftrightarrow>
     length (CID_ToBase32 T c) = 39 \<and> CHR 0x00 \<notin> set (CID_ToBase32 T c) \<and>
     CID_FromBase32 T (CID_ToBase32 T c) = Inr c"

definition Features_wf :: "(Feature \<times> bool) list \<Rightarrow> (Feature \<rightharpoonup> bool) \<Rightarrow> bool" where
  "Features_wf kvs F \<longleftrightarrow>
     distinct (map fst kvs) \<and> map_of kvs = F \<and>
     list_all (\<lambda>(t, b). length t = 4 \<and> CHR 0x00 \<notin> set t) kvs"

fun well_formed ::
  "('sid, 'cid) adc_types \<Rightarrow> ((Feature \<rightharpoonup> bool) \<Rightarrow> (Feature \<times> bool) list) \<Rightarrow>
   ('sid, 'cid) Packet \<Rightarrow> bool" where
  "well_formed T order (InfoPacket nm d) \<longleftrightarrow> name_wf nm \<and> CHR 0x00 \<notin> set d"
| "well_formed T order (HubPacket nm d) \<longleftrightarrow> name_wf nm \<and> CHR 0x00 \<notin> set d"
| "well_formed T order (ClientPacket nm d) \<longleftrightarrow> name_wf nm \<and> CHR 0x00 \<notin> set d"
| "well_formed T order (BroadcastPacket nm d s) \<longleftrightarrow>
     name_wf nm \<and> CHR 0x00 \<notin> set d \<and> SID_wf T s"
| "well_formed T order (DirectPacket nm d s t) \<longleftrightarrow>
     name_wf nm \<and> CHR 0x00 \<notin> set d \<and> SID_wf T s \<and> SID_wf T t"
| "well_formed T order (EchoPacket nm d s t) \<longleftrightarrow>
     name_wf nm \<and> CHR 0x00 \<notin> set d \<and> SID_wf T s \<and> SID_wf T t"
| "well_formed T order (FeaturePacket nm d s F) \<longleftrightarrow>
     name_wf nm \<and> CHR 0x00 \<notin> set d \<and> payload_start d \<and> SID_wf T s \<and>
     Features_wf (order F) F"
| "well_formed T order (UDPPacket nm d c) \<longleftrightarrow>
     name_wf nm \<and> CHR 0x00 \<notin> set d \<and> CID_wf T c"

fun bare :: "('sid, 'cid) Packet \<Rightarrow> bool" where
  "bare (HubPacket nm d) \<longleftrightarrow> d = []"
| "bare (ClientPacket nm d) \<longleftrightarrow> d = []"
| "bare _ \<longleftrightarrow> False"

subsection \<open>Rejected frames\<close>

text \<open>A frame is rejected when the decoder returns an error for it.\<close>

definition rejected :: "error + 'a \<Rightarrow> bool" where
  "rejected r \<longleftrightarrow> (\<exists>m. r = Inl (Errorf m))"

subsection \<open>Sample values\<close>

text \<open>The messages an IRC client sends to choose a name, and a peer at rest.\<close>

definition NICK :: "string \<Rightarrow> irc_Message" where
  "NICK n = \<lparr>Prefix = None, Command = ''NICK'', Params = [n]\<rparr>"

definition USER :: "string \<Rightarrow> irc_Message" where
  "USER u = \<lparr>Prefix = None, Command = ''USER'', Params = [u, ''0'', ''*'', u]\<rparr>"

definition PRIVMSG :: "string \<Rightarrow> string \<Rightarrow> irc_Message" where
  "PRIVMSG dst txt = \<lparr>Prefix = None, Command = ''PRIVMSG'', Params = [dst, txt]\<rparr>"

definition hub_Prefix :: irc_Prefix where
  "hub_Prefix = \<lparr>pName = ''hub.local'', pUser = '''', pHost = ''''\<rparr>"

definition alice :: ircPeer where
  "alice =
     \<lparr>hostPref = hub_Prefix,
      ownPref = \<lparr>pName = ''alice'', pUser = ''alice'', pHost = ''hub.local''\<rparr>,
      name = ''alice'', sid = 1, closed = False\<rparr>"

section \<open>Properties of the packet codec\<close>

lemma bnd_Inr [simp]: "bnd (Inr x) f = f x"
  by (simp add: bnd_def)

lemma bnd_Inl [simp]: "bnd (Inl e) f = Inl e"
  by (simp add: bnd_def)

lemma reslice_from_vis:
  "i \<le> len data \<Longrightarrow> reslice_from data i = Inr \<lparr>vis = drop i (vis data), ext = ext data\<rparr>"
  by (simp add: reslice_from_def reslice_def len_def cap_def)

lemma reslice_to_cut:
  "reslice_to \<lparr>vis = xs @ [c], ext = e\<rparr> (len \<lparr>vis = xs @ [c], ext = e\<rparr> - 1) =
   Inr \<lparr>vis = xs, ext = c # e\<rparr>"
  by (simp add: reslice_to_def reslice_def len_def cap_def)

subsection \<open>DecodePacket on a frame with a name of 3 bytes\<close>

lemma len3: "length nm = 3 \<Longrightarrow> \<exists>a b c. nm = [a, b, c]"
  by (metis (no_types) length_0_conv length_Suc_conv numeral_3_eq_3)

lemma dispatch [simp]:
  "UnmarshalPacket T (CHR ''I'') = InfoPacket_UnmarshalPacket"
  "UnmarshalPacket T (CHR ''H'') = HubPacket_UnmarshalPacket"
  "UnmarshalPacket T (CHR ''C'') = ClientPacket_UnmarshalPacket"
  "UnmarshalPacket T (CHR ''B'') = BroadcastPacket_UnmarshalPacket T"
  "UnmarshalPacket T (CHR ''D'') = DirectPacket_UnmarshalPacket T"
  "UnmarshalPacket T (CHR ''E'') = EchoPacket_UnmarshalPacket T"
  "UnmarshalPacket T (CHR ''F'') = FeaturePacket_UnmarshalPacket T"
  "UnmarshalPacket T (CHR ''U'') = UDPPacket_UnmarshalPacket T"
  by (simp_all add: UnmarshalPacket_def fun_eq_iff)

lemma decode_frame_raw:
  assumes nm: "length nm = 3" and k: "k \<in> set ''IHEDBFCU''"
    and nul: "CHR 0x00 \<notin> set (nm @ r)"
  shows "DecodePacket T \<lparr>vis = k # nm @ CHR '' '' # r, ext = e\<rparr> =
         UnmarshalPacket T k nm \<lparr>vis = r, ext = e\<rparr>"
proof -
  obtain a b c where abc: "nm = [a, b, c]" using len3 [OF nm] by blast
  let ?p = "\<lparr>vis = k # nm @ CHR '' '' # r, ext = e\<rparr>"
  have l: "\<not> len ?p < 5" by (simp add: len_def abc)
  have z: "CHR 0x00 \<notin> set (vis ?p)" using nul k by auto
  have cname: "reslice ?p 1 4 = Inr \<lparr>vis = nm, ext = CHR '' '' # r @ e\<rparr>"
    by (simp add: reslice_def cap_def abc)
  have p4: "reslice_from ?p 4 = Inr \<lparr>vis = CHR '' '' # r, ext = e\<rparr>"
    by (simp add: reslice_from_vis len_def abc)
  have raw: "reslice_from \<lparr>vis = CHR '' '' # r, ext = e\<rparr> 1 = Inr \<lparr>vis = r, ext = e\<rparr>"
    by (simp add: reslice_from_vis len_def)
  show ?thesis
    unfolding DecodePacket_def
    using l z k cname p4 raw by (auto simp: Let_def len_def)
qed

lemma decode_frame_bare:
  assumes nm: "length nm = 3" and k: "k \<in> set ''IHEDBFCU''"
    and nul: "CHR 0x00 \<notin> set nm"
  shows "DecodePacket T \<lparr>vis = k # nm @ [lineDelim], ext = e\<rparr> =
         UnmarshalPacket T k nm nil_slice"
proof -
  obtain a b c where abc: "nm = [a, b, c]" using len3 [OF nm] by blast
  let ?p = "\<lparr>vis = k # nm @ [lineDelim], ext = e\<rparr>"
  have l: "\<not> len ?p < 5" by (simp add: len_def abc)
  have z: "CHR 0x00 \<notin> set (vis ?p)" using nul k by (auto simp: lineDelim_def)
  have cname: "reslice ?p 1 4 = Inr \<lparr>vis = nm, ext = lineDelim # e\<rparr>"
    by (simp add: reslice_def cap_def abc)
  have p4: "reslice_from ?p 4 = Inr \<lparr>vis = [lineDelim], ext = e\<rparr>"
    by (simp add: reslice_from_vis len_def abc)
  show ?thesis
    unfolding DecodePacket_def
    using l z k cname p4 by (auto simp: Let_def len_def lineDelim_def)
qed

lemma decode_feature_frame:
  assumes nm: "length nm = 3" and nul: "CHR 0x00 \<notin> set (nm @ sidb @ region)"
  shows "DecodePacket T \<lparr>vis = feature_frame nm sidb region, ext = e\<rparr> =
         FeaturePacket_UnmarshalPacket T nm \<lparr>vis = sidb @ region @ [lineDelim], ext = e\<rparr>"
proof -
  have "CHR 0x00 \<notin> set (nm @ sidb @ region @ [lineDelim])"
    using nul by (simp add: lineDelim_def)
  from decode_frame_raw [OF nm _ this, of "CHR ''F''" T e]
  show ?thesis by (simp add: feature_frame_def)
qed

subsection \<open>UnmarshalPacket on the rest of a frame\<close>

lemma unmarshal_Info:
  "InfoPacket_UnmarshalPacket nm \<lparr>vis = d @ [lineDelim], ext = e\<rparr> = Inr (InfoPacket nm d)"
  "InfoPacket_UnmarshalPacket nm nil_slice = Inr (InfoPacket nm [])"
  by (simp_all add: InfoPacket_UnmarshalPacket_def len_def cap_def reslice_to_def reslice_def
      nil_slice_def nth_append)

lemma unmarshal_Hub:
  "HubPacket_UnmarshalPacket nm \<lparr>vis = d @ [lineDelim], ext = e\<rparr> = Inr (HubPacket nm d)"
  by (simp add: HubPacket_UnmarshalPacket_def len_def cap_def reslice_to_def reslice_def
      nth_append)

lemma unmarshal_Client:
  "ClientPacket_UnmarshalPacket nm \<lparr>vis = d @ [lineDelim], ext = e\<rparr> = Inr (ClientPacket nm d)"
  by (simp add: ClientPacket_UnmarshalPacket_def len_def cap_def reslice_to_def reslice_def
      nth_append)

lemma unmarshal_Broadcast:
  assumes idb: "length idb = 4" and sid: "SID_UnmarshalAdc T idb = Inr s"
  shows "BroadcastPacket_UnmarshalPacket T nm \<lparr>vis = idb @ payload_part d @ [lineDelim], ext = e\<rparr> =
         Inr (BroadcastPacket nm d s)"
proof -
  let ?raw = "\<lparr>vis = idb @ payload_part d @ [lineDelim], ext = e\<rparr>"
  let ?data = "\<lparr>vis = idb @ payload_part d, ext = lineDelim # e\<rparr>"
  have l: "len ?raw = 5 + length (payload_part d)" using idb by (simp add: len_def)
  have last: "vis ?raw ! (len ?raw - 1) = lineDelim"
    using idb by (simp add: len_def nth_append)
  have at4: "vis ?raw ! 4 = CHR '' '' \<or> vis ?raw ! 4 = lineDelim"
    using idb by (simp add: nth_append payload_part_def)
  have cut: "reslice_to ?raw (len ?raw - 1) = Inr ?data"
    using idb by (simp add: reslice_to_def reslice_def len_def cap_def)
  have b: "reslice ?data 0 4 = Inr \<lparr>vis = idb, ext = payload_part d @ lineDelim # e\<rparr>"
    using idb by (simp add: reslice_def cap_def)
  have ld: "len ?data = 4 + length (payload_part d)" using idb by (simp add: len_def)
  have rest: "(if len ?data > 5
               then bnd (reslice_from ?data 5) (\<lambda>x. Inr (BroadcastPacket nm (vis x) s))
               else Inr (BroadcastPacket nm [] s)) = Inr (BroadcastPacket nm d s)"
    using idb by (simp add: payload_part_def len_def reslice_from_vis)
  show ?thesis
    unfolding BroadcastPacket_UnmarshalPacket_def
    using l last at4 cut b sid rest by (auto simp: bnd_def)
qed

lemma unmarshal_Direct:
  assumes idb: "length idb = 4" and sid: "SID_UnmarshalAdc T idb = Inr s"
    and tgb: "length tgb = 4" and tg: "SID_UnmarshalAdc T tgb = Inr t"
  shows "DirectPacket_UnmarshalPacket T nm
           \<lparr>vis = idb @ CHR '' '' # tgb @ payload_part d @ [lineDelim], ext = e\<rparr> =
         Inr (DirectPacket nm d s t)"
proof -
  let ?raw = "\<lparr>vis = idb @ CHR '' '' # tgb @ payload_part d @ [lineDelim], ext = e\<rparr>"
  let ?data = "\<lparr>vis = idb @ CHR '' '' # tgb @ payload_part d, ext = lineDelim # e\<rparr>"
  have l: "len ?raw = 10 + length (payload_part d)" using idb tgb by (simp add: len_def)
  have last: "vis ?raw ! (len ?raw - 1) = lineDelim"
    using idb tgb by (simp add: len_def nth_append)
  have at4: "vis ?raw ! 4 = CHR '' ''" using idb by (simp add: nth_append)
  have at9: "vis ?raw ! 9 = CHR '' '' \<or> vis ?raw ! 9 = lineDelim"
    using idb tgb by (simp add: nth_append payload_part_def)
  have cut: "reslice_to ?raw (len ?raw - 1) = Inr ?data"
    using reslice_to_cut [of "idb @ CHR '' '' # tgb @ payload_part d" lineDelim e] by simp
  have b: "reslice ?data 0 4 =
           Inr \<lparr>vis = idb, ext = CHR '' '' # tgb @ payload_part d @ lineDelim # e\<rparr>"
    using idb by (simp add: reslice_def cap_def)
  have c: "reslice ?data 5 9 = Inr \<lparr>vis = tgb, ext = payload_part d @ lineDelim # e\<rparr>"
    using idb tgb by (simp add: reslice_def cap_def)
  have rest: "(if len ?data > 10
               then bnd (reslice_from ?data 10) (\<lambda>x. Inr (DirectPacket nm (vis x) s t))
               else Inr (DirectPacket nm [] s t)) = Inr (DirectPacket nm d s t)"
    using idb tgb by (simp add: payload_part_def len_def reslice_from_vis)
  show ?thesis
    unfolding DirectPacket_UnmarshalPacket_def
    using l last at4 at9 cut b c sid tg rest by (auto simp: bnd_def)
qed

lemma unmarshal_Echo:
  assumes idb: "length idb = 4" and sid: "SID_UnmarshalAdc T idb = Inr s"
    and tgb: "length tgb = 4" and tg: "SID_UnmarshalAdc T tgb = Inr t"
  shows "EchoPacket_UnmarshalPacket T nm
           \<lparr>vis = idb @ CHR '' '' # tgb @ payload_part d @ [lineDelim], ext = e\<rparr> =
         Inr (EchoPacket nm d s t)"
proof -
  let ?raw = "\<lparr>vis = idb @ CHR '' '' # tgb @ payload_part d @ [lineDelim], ext = e\<rparr>"
  let ?data = "\<lparr>vis = idb @ CHR '' '' # tgb @ payload_part d, ext = lineDelim # e\<rparr>"
  have l: "len ?raw = 10 + length (payload_part d)" using idb tgb by (simp add: len_def)
  have last: "vis ?raw ! (len ?raw - 1) = lineDelim"
    using idb tgb by (simp add: len_def nth_append)
  have at4: "vis ?raw ! 4 = CHR '' ''" using idb by (simp add: nth_append)
  have at9: "vis ?raw ! 9 = CHR '' '' \<or> vis ?raw ! 9 = lineDelim"
    using idb tgb by (simp add: nth_append payload_part_def)
  have cut: "reslice_to ?raw (len ?raw - 1) = Inr ?data"
    using reslice_to_cut [of "idb @ CHR '' '' # tgb @ payload_part d" lineDelim e] by simp
  have b: "reslice ?data 0 4 =
           Inr \<lparr>vis = idb, ext = CHR '' '' # tgb @ payload_part d @ lineDelim # e\<rparr>"
    using idb by (simp add: reslice_def cap_def)
  have c: "reslice ?data 5 9 = Inr \<lparr>vis = tgb, ext = payload_part d @ lineDelim # e\<rparr>"
    using idb tgb by (simp add: reslice_def cap_def)
  have rest: "(if len ?data > 10
               then bnd (reslice_from ?data 10) (\<lambda>x. Inr (EchoPacket nm (vis x) s t))
               else Inr (EchoPacket nm [] s t)) = Inr (EchoPacket nm d s t)"
    using idb tgb by (simp add: payload_part_def len_def reslice_from_vis)
  show ?thesis
    unfolding EchoPacket_UnmarshalPacket_def
    using l last at4 at9 cut b c sid tg rest by (auto simp: bnd_def)
qed

lemma unmarshal_UDP:
  assumes cb: "length cb = 39" and cid: "CID_FromBase32 T cb = Inr c"
  shows "UDPPacket_UnmarshalPacket T nm \<lparr>vis = cb @ payload_part d @ [lineDelim], ext = e\<rparr> =
         Inr (UDPPacket nm d c)"
proof -
  let ?raw = "\<lparr>vis = cb @ payload_part d @ [lineDelim], ext = e\<rparr>"
  let ?data = "\<lparr>vis = cb @ payload_part d, ext = lineDelim # e\<rparr>"
  have l: "len ?raw = 40 + length (payload_part d)" using cb by (simp add: len_def)
  have last: "vis ?raw ! (len ?raw - 1) = lineDelim"
    using cb by (simp add: len_def nth_append)
  have at39: "vis ?raw ! 39 = CHR '' '' \<or> vis ?raw ! 39 = lineDelim"
    using cb by (simp add: nth_append payload_part_def)
  have cut: "reslice_to ?raw (len ?raw - 1) = Inr ?data"
    using cb by (simp add: reslice_to_def reslice_def len_def cap_def)
  have b: "reslice ?data 0 39 = Inr \<lparr>vis = cb, ext = payload_part d @ lineDelim # e\<rparr>"
    using cb by (simp add: reslice_def cap_def)
  have rest: "(if len ?data > 39 + 1
               then bnd (reslice_from ?data (39 + 1)) (\<lambda>x. Inr (UDPPacket nm (vis x) c))
               else Inr (UDPPacket nm [] c)) = Inr (UDPPacket nm d c)"
    using cb by (simp add: payload_part_def len_def reslice_from_vis)
  show ?thesis
    unfolding UDPPacket_UnmarshalPacket_def Let_def
    using l last at39 cut b cid rest by (auto simp: bnd_def)
qed

subsection \<open>The loop over the feature filter\<close>

lemma render_Nil_iff: "render items = [] \<longleftrightarrow> items = []"
proof (cases items)
  case (Cons it rest)
  then show ?thesis by (cases it) (simp_all add: render_def)
qed (simp add: render_def)

lemma loop_nil: "feature_loop nil_slice i F = Inr (nil_slice, F)"
  by (subst feature_loop.simps) (simp add: nil_slice_def len_def)

lemma loop_payload:
  assumes "vis data = pre @ pl" "i = length pre" "pl \<noteq> []" "payload_start pl"
  shows "feature_loop data i F = Inr (\<lparr>vis = pl, ext = ext data\<rparr>, F)"
proof -
  from assms obtain c cs where pl: "pl = c # cs"
    and c: "c \<noteq> CHR '' ''" "c \<noteq> CHR ''+''" "c \<noteq> CHR ''-''"
    by (cases pl) (auto simp: payload_start_def)
  have i: "i < len data" using assms by (simp add: len_def)
  have at: "vis data ! i = c" using assms pl by simp
  have "feature_body data i F = Inr (True, \<lparr>vis = pl, ext = ext data\<rparr>, i, F)"
    using i at c assms by (simp add: feature_body_def reslice_from_vis)
  then show ?thesis using i by (subst feature_loop.simps) simp
qed

text \<open>
  Entered at the start of a region that is not empty, the loop ends with the features
  of the tokens added and \<^verbatim>\<open>data\<close> the payload, or nil when there is none.
\<close>

lemma loop_items:
  assumes "vis data = pre @ render items @ pl" "i = length pre" "render items @ pl \<noteq> []"
    "list_all tag_ok items" "payload_start pl"
  shows "feature_loop data i F =
         Inr (if pl = [] then nil_slice else \<lparr>vis = pl, ext = ext data\<rparr>, fold put_item items F)"
  using assms
proof (induction items arbitrary: data pre i F)
  case Nil
  then show ?case using loop_payload [of data pre pl i F] by (simp add: render_def)
next
  case (Cons it items)
  have i: "i < len data" using Cons.prems by (cases it) (simp_all add: len_def render_def)
  show ?case
  proof (cases it)
    case Sp
    let ?d = "\<lparr>vis = CHR '' '' # render items @ pl, ext = ext data\<rparr>"
    have at: "vis data ! i = CHR '' ''" using Cons.prems Sp by (simp add: render_def)
    have body: "feature_body data i F = Inr (False, ?d, 0, F)"
      using i at Cons.prems Sp by (simp add: feature_body_def reslice_from_vis render_def)
    show ?thesis
    proof (cases "render items @ pl = []")
      case True
      then have "items = []" "pl = []" by (simp_all add: render_Nil_iff)
      then show ?thesis using body i Sp
        by (subst feature_loop.simps) (simp add: len_def loop_nil render_def)
    next
      case False
      have "feature_loop ?d 1 F =
            Inr (if pl = [] then nil_slice else \<lparr>vis = pl, ext = ext ?d\<rparr>, fold put_item items F)"
        using Cons.prems False by (intro Cons.IH [of ?d "'' ''"]) simp_all
      then show ?thesis using body i Sp False
        by (subst feature_loop.simps) (auto simp: len_def)
    qed
  next
    case (Tok b t)
    have t: "length t = 4" using Cons.prems Tok by simp
    have vd: "vis data = pre @ sigil b # t @ render items @ pl"
      using Cons.prems Tok by (simp add: render_def)
    have at: "vis data ! i = sigil b" using vd Cons.prems by simp
    have fea: "reslice data (i + 1) (i + 5) =
               Inr \<lparr>vis = t, ext = drop (i + 5) (vis data @ ext data)\<rparr>"
      using vd t Cons.prems by (simp add: reslice_def cap_def)
    have body: "feature_body data i F = Inr (False, data, i + 4, F(t \<mapsto> b))"
      using i at vd t fea Cons.prems
      by (cases b) (simp_all add: feature_body_def reslice_from_vis sigil_def len_def)
    show ?thesis
    proof (cases "render items @ pl = []")
      case True
      then have e: "items = []" "pl = []" by (simp_all add: render_Nil_iff)
      then have "i + 4 + 1 = len data" using vd t Cons.prems by (simp add: len_def render_def)
      then show ?thesis using body i Tok e
        by (subst feature_loop.simps) (simp add: loop_nil)
    next
      case False
      then have ne: "i + 4 + 1 \<noteq> len data" using vd t Cons.prems by (simp add: len_def)
      have "feature_loop data (i + 5) (F(t \<mapsto> b)) =
            Inr (if pl = [] then nil_slice else \<lparr>vis = pl, ext = ext data\<rparr>,
                 fold put_item items (F(t \<mapsto> b)))"
        using Cons.prems False vd t by (intro Cons.IH [of data "pre @ sigil b # t"]) simp_all
      then show ?thesis using body i Tok ne
        by (subst feature_loop.simps) (simp add: numeral_eq_Suc)
    qed
  qed
qed

lemma unmarshal_region:
  assumes sidb: "length sidb = 4" and sid: "SID_UnmarshalAdc T sidb = Inr s"
    and tags: "list_all tag_ok items" and pl: "payload_start pl"
  shows "FeaturePacket_UnmarshalPacket T nm
           \<lparr>vis = sidb @ CHR '' '' # render items @ pl @ [lineDelim], ext = e\<rparr> =
         Inr (FeaturePacket nm pl s (fold put_item items Map.empty))"
proof -
  let ?rest = "render items @ pl"
  let ?raw = "\<lparr>vis = sidb @ CHR '' '' # ?rest @ [lineDelim], ext = e\<rparr>"
  let ?data = "\<lparr>vis = sidb @ CHR '' '' # ?rest, ext = lineDelim # e\<rparr>"
  have l: "len ?raw = 6 + length ?rest" using sidb by (simp add: len_def)
  have last: "vis ?raw ! (len ?raw - 1) = lineDelim"
    using sidb by (simp add: len_def nth_append)
  have at4: "vis ?raw ! 4 = CHR '' ''" using sidb by (simp add: nth_append)
  have cut: "reslice_to ?raw (len ?raw - 1) = Inr ?data"
    using sidb by (simp add: reslice_to_def reslice_def len_def cap_def)
  have idb: "reslice ?data 0 4 = Inr \<lparr>vis = sidb, ext = CHR '' '' # ?rest @ lineDelim # e\<rparr>"
    using sidb by (simp add: reslice_def cap_def)
  have ld: "len ?data = 5 + length ?rest" using sidb by (simp add: len_def)
  have loop: "bnd (if len ?data > 5 then reslice_from ?data 5 else Inr nil_slice)
                (\<lambda>d. feature_loop d 0 Map.empty) =
              Inr (if pl = [] then nil_slice else \<lparr>vis = pl, ext = lineDelim # e\<rparr>,
                   fold put_item items Map.empty)"
  proof (cases "?rest = []")
    case True
    then have "items = []" "pl = []" by (simp_all add: render_Nil_iff)
    then show ?thesis using ld by (simp add: loop_nil render_def)
  next
    case False
    have "reslice_from ?data 5 = Inr \<lparr>vis = ?rest, ext = lineDelim # e\<rparr>"
      using sidb by (simp add: reslice_from_vis len_def)
    moreover have "feature_loop \<lparr>vis = ?rest, ext = lineDelim # e\<rparr> 0 Map.empty =
        Inr (if pl = [] then nil_slice else \<lparr>vis = pl, ext = lineDelim # e\<rparr>,
             fold put_item items Map.empty)"
      using loop_items [of "\<lparr>vis = ?rest, ext = lineDelim # e\<rparr>" "[]" items pl 0 Map.empty]
        False tags pl by simp
    ultimately show ?thesis using ld False by simp
  qed
  have "FeaturePacket_UnmarshalPacket T nm ?raw =
        bnd (bnd (if len ?data > 5 then reslice_from ?data 5 else Inr nil_slice)
               (\<lambda>d. feature_loop d 0 Map.empty))
          (\<lambda>(data, Features).
             Inr (FeaturePacket nm (if len data > 0 then vis data else []) s Features))"
    unfolding FeaturePacket_UnmarshalPacket_def
    using l last at4 cut idb sid by (simp add: bnd_def split: sum.splits)
  also have "\<dots> = Inr (FeaturePacket nm pl s (fold put_item items Map.empty))"
    unfolding loop by (simp add: len_def nil_slice_def)
  finally show ?thesis by simp
qed

lemma unmarshal_no_region:
  assumes sidb: "length sidb = 4" and sid: "SID_UnmarshalAdc T sidb = Inr s"
  shows "FeaturePacket_UnmarshalPacket T nm \<lparr>vis = sidb @ [lineDelim], ext = e\<rparr> =
         Inr (FeaturePacket nm [] s Map.empty)"
proof -
  let ?raw = "\<lparr>vis = sidb @ [lineDelim], ext = e\<rparr>"
  let ?data = "\<lparr>vis = sidb, ext = lineDelim # e\<rparr>"
  have l: "len ?raw = 5" using sidb by (simp add: len_def)
  have last: "vis ?raw ! (len ?raw - 1) = lineDelim"
    using sidb by (simp add: len_def nth_append)
  have at4: "vis ?raw ! 4 = lineDelim" using sidb by (simp add: nth_append)
  have cut: "reslice_to ?raw (len ?raw - 1) = Inr ?data"
    using sidb by (simp add: reslice_to_def reslice_def len_def cap_def)
  have idb: "reslice ?data 0 4 = Inr \<lparr>vis = sidb, ext = lineDelim # e\<rparr>"
    using sidb by (simp add: reslice_def cap_def)
  have ld: "len ?data = 4" using sidb by (simp add: len_def)
  show ?thesis
    unfolding FeaturePacket_UnmarshalPacket_def
    using l last at4 cut idb sid ld
    by (simp add: loop_nil [unfolded nil_slice_def] nil_slice_def len_def)
qed

text \<open>
  C3. When a Feature frame is decoded, the region after the source SID is read as
  feature tokens, a sigil \<^verbatim>\<open>+\<close> or \<^verbatim>\<open>-\<close> and a tag of 4 bytes each, separated by
  spaces; the first byte at the start of a token that is neither a space nor a sigil
  ends the feature list, and the payload starts at that byte. For every name of 3
  bytes, SID text of 4 bytes that the SID decoder accepts, sequence of spaces and
  tokens, and payload that is empty or starts with such a byte, none of them with a
  null byte, and whatever the capacity of the frame: the packet decoded has that
  name, that SID, the features of the tokens (a later token for a tag replaces an
  earlier one) and that payload. A frame that ends after the SID decodes to a packet
  with no feature and no payload.
\<close>

theorem Feature_filter_decode:
  assumes "length nm = 3" and "length sidb = 4" and "SID_UnmarshalAdc T sidb = Inr s"
    and "list_all tag_ok items" and "payload_start pl"
    and "CHR 0x00 \<notin> set (nm @ sidb @ render items @ pl)"
  shows "DecodePacket T \<lparr>vis = feature_frame nm sidb (CHR '' '' # render items @ pl), ext = e\<rparr> =
           Inr (FeaturePacket nm pl s (fold put_item items Map.empty)) \<and>
         DecodePacket T \<lparr>vis = feature_frame nm sidb [], ext = e\<rparr> =
           Inr (FeaturePacket nm [] s Map.empty)"
proof
  have "CHR 0x00 \<notin> set (nm @ sidb @ CHR '' '' # render items @ pl)"
    using assms(6) by simp
  from decode_feature_frame [OF assms(1) this, of T e]
  have "DecodePacket T \<lparr>vis = feature_frame nm sidb (CHR '' '' # render items @ pl), ext = e\<rparr> =
        FeaturePacket_UnmarshalPacket T nm
          \<lparr>vis = sidb @ CHR '' '' # render items @ pl @ [lineDelim], ext = e\<rparr>"
    by simp
  also have "\<dots> = Inr (FeaturePacket nm pl s (fold put_item items Map.empty))"
    by (rule unmarshal_region [OF assms(2) assms(3) assms(4) assms(5)])
  finally show "DecodePacket T
          \<lparr>vis = feature_frame nm sidb (CHR '' '' # render items @ pl), ext = e\<rparr> =
        Inr (FeaturePacket nm pl s (fold put_item items Map.empty))" .
next
  have "CHR 0x00 \<notin> set (nm @ sidb @ [])" using assms(6) by simp
  from decode_feature_frame [OF assms(1) this, of T e]
  have "DecodePacket T \<lparr>vis = feature_frame nm sidb [], ext = e\<rparr> =
        FeaturePacket_UnmarshalPacket T nm \<lparr>vis = sidb @ [lineDelim], ext = e\<rparr>"
    by simp
  also have "\<dots> = Inr (FeaturePacket nm [] s Map.empty)"
    by (rule unmarshal_no_region [OF assms(2) assms(3)])
  finally show "DecodePacket T \<lparr>vis = feature_frame nm sidb [], ext = e\<rparr> =
        Inr (FeaturePacket nm [] s Map.empty)" .
qed

text \<open>
  The frame \<^verbatim>\<open>FSCH ABCD +TCP4 -NAT0 TR:xyz\<close> with its line delimiter: the source
  SID is ABCD, TCP4 is required, NAT0 is forbidden, and the payload is \<^verbatim>\<open>TR:xyz\<close>.
\<close>

theorem Feature_filter_decode_example:
  "SID_UnmarshalAdc text_types ''ABCD'' = Inr ''ABCD'' \<and>
   DecodePacket text_types \<lparr>vis = ''FSCH ABCD +TCP4 -NAT0 TR:xyz'' @ [lineDelim], ext = []\<rparr> =
     Inr (FeaturePacket ''SCH'' ''TR:xyz'' ''ABCD'' [''TCP4'' \<mapsto> True, ''NAT0'' \<mapsto> False])"
proof -
  have sid: "SID_UnmarshalAdc text_types ''ABCD'' = Inr ''ABCD''"
    by (simp add: text_types_def base32_char_def)
  have "DecodePacket text_types
          \<lparr>vis = feature_frame ''SCH'' ''ABCD''
             (CHR '' '' # render [Tok True ''TCP4'', Sp, Tok False ''NAT0'', Sp] @ ''TR:xyz''),
           ext = []\<rparr> =
        Inr (FeaturePacket ''SCH'' ''TR:xyz'' ''ABCD''
               (fold put_item [Tok True ''TCP4'', Sp, Tok False ''NAT0'', Sp] Map.empty))"
    using Feature_filter_decode [of "''SCH''" "''ABCD''" text_types "''ABCD''"
        "[Tok True ''TCP4'', Sp, Tok False ''NAT0'', Sp]" "''TR:xyz''" "[]"] sid
    by (simp add: payload_start_def render_def sigil_def)
  then show ?thesis using sid
    by (simp add: feature_frame_def render_def sigil_def)
qed

subsection \<open>What MarshalPacket returns\<close>

lemma put_at: "length pre = off \<Longrightarrow> put (pre @ z # rest) off c = Inr (pre @ c # rest)"
  by (auto simp: put_def)

lemma copy_at:
  "length pre = off \<Longrightarrow> length mid = length src \<Longrightarrow>
   copy_to (pre @ mid @ rest) off src = Inr (pre @ src @ rest)"
  by (auto simp: copy_to_def)

lemma length_zeros [simp]: "length (zeros n) = n"
  by (simp add: zeros_def)

lemma zeros_add: "zeros (a + b) = zeros a @ zeros b"
  by (simp add: zeros_def replicate_add)

lemma zeros_1: "zeros 1 = [CHR 0x00]"
  by (simp add: zeros_def)

lemma payload_size:
  "(if length d > 0 then n + (1 + length d) else n) = n + length (payload_part d)"
  by (simp add: payload_part_def)

text \<open>The last statements of every MarshalPacket: the payload, if any, and the delimiter.\<close>

lemma finish_payload:
  assumes "length pre = off"
  shows "bnd (if length d > 0
              then bnd (put (pre @ zeros (length (payload_part d)) @ zeros 1) off (CHR '' ''))
                     (\<lambda>buf. copy_to buf (off + 1) d)
              else Inr (pre @ zeros (length (payload_part d)) @ zeros 1))
           (\<lambda>buf. put buf (length buf - 1) lineDelim) =
         Inr (pre @ payload_part d @ [lineDelim])"
proof (cases "d = []")
  case True
  then show ?thesis
    using put_at [of pre "length pre" "CHR 0x00" "[]" lineDelim]
    by (simp add: payload_part_def zeros_def)
next
  case False
  have 1: "put (pre @ zeros (length (payload_part d)) @ zeros 1) off (CHR '' '') =
           Inr (pre @ CHR '' '' # zeros (length d) @ zeros 1)"
    using put_at [of pre off "CHR 0x00" "zeros (length d) @ zeros 1" "CHR '' ''"] assms False
    by (simp add: payload_part_def zeros_def)
  have 2: "copy_to (pre @ CHR '' '' # zeros (length d) @ zeros 1) (off + 1) d =
           Inr ((pre @ '' '') @ d @ zeros 1)"
    using copy_at [of "pre @ '' ''" "off + 1" "zeros (length d)" d "zeros 1"] assms by simp
  have 3: "put ((pre @ '' '') @ d @ zeros 1) (length ((pre @ '' '') @ d @ zeros 1) - 1) lineDelim =
           Inr ((pre @ '' '' @ d) @ [lineDelim])"
    using put_at [of "pre @ '' '' @ d" "length ((pre @ '' '') @ d @ zeros 1) - 1" "CHR 0x00" "[]"
        lineDelim]
    by (simp add: zeros_def)
  show ?thesis using False 1 2 3 by (simp add: payload_part_def)
qed

lemma marshal_plain:
  assumes nm: "length nm = 3"
  shows "plain_MarshalPacket k nm d = Inr (k # nm @ payload_part d @ [lineDelim])"
proof -
  let ?tail = "zeros (length (payload_part d)) @ zeros 1"
  have buf: "make_bytes (5 + length (payload_part d)) = [] @ CHR 0x00 # zeros 3 @ ?tail"
    by (simp add: make_bytes_def zeros_def eval_nat_numeral replicate_append_same)
  have 1: "put ([] @ CHR 0x00 # zeros 3 @ ?tail) 0 k = Inr ([k] @ zeros 3 @ ?tail)"
    using put_at [of "[]" 0 _ _ k] by simp
  have 2: "copy_to ([k] @ zeros 3 @ ?tail) 1 nm = Inr ((k # nm) @ ?tail)"
    using copy_at [of "[k]" 1 "zeros 3" nm ?tail] nm by simp
  show ?thesis
  proof (cases "d = []")
    case True
    then show ?thesis
      unfolding plain_MarshalPacket_def Let_def payload_size buf
      using 1 2 finish_payload [of "k # nm" 4 d] nm by (simp add: payload_part_def)
  next
    case False
    then show ?thesis
      unfolding plain_MarshalPacket_def Let_def payload_size buf
      using 1 2 finish_payload [of "k # nm" 4 d] nm by (simp add: payload_part_def)
  qed
qed

lemma marshal_Broadcast:
  assumes nm: "length nm = 3" and idb: "length (SID_MarshalAdc T s) = 4"
  shows "BroadcastPacket_MarshalPacket T nm d s =
         Inr (CHR ''B'' # nm @ CHR '' '' # SID_MarshalAdc T s @ payload_part d @ [lineDelim])"
proof -
  let ?id = "SID_MarshalAdc T s"
  let ?tail = "zeros (length (payload_part d)) @ zeros 1"
  let ?k = "CHR ''B''"
  have buf: "make_bytes (10 + length (payload_part d)) =
             [] @ CHR 0x00 # zeros 3 @ CHR 0x00 # zeros 4 @ ?tail"
    by (simp add: make_bytes_def zeros_def eval_nat_numeral replicate_append_same)
  have 1: "put ([] @ CHR 0x00 # zeros 3 @ CHR 0x00 # zeros 4 @ ?tail) 0 ?k =
           Inr ([?k] @ zeros 3 @ CHR 0x00 # zeros 4 @ ?tail)"
    using put_at [of "[]" 0 _ _ ?k] by simp
  have 2: "copy_to ([?k] @ zeros 3 @ CHR 0x00 # zeros 4 @ ?tail) 1 nm =
           Inr ((?k # nm) @ CHR 0x00 # zeros 4 @ ?tail)"
    using copy_at [of "[?k]" 1 "zeros 3" nm] nm by simp
  have 3: "put ((?k # nm) @ CHR 0x00 # zeros 4 @ ?tail) 4 (CHR '' '') =
           Inr ((?k # nm @ '' '') @ zeros 4 @ ?tail)"
    using put_at [of "?k # nm" 4 _ _ "CHR '' ''"] nm by simp
  have 4: "copy_to ((?k # nm @ '' '') @ zeros 4 @ ?tail) 5 ?id =
           Inr ((?k # nm @ '' '' @ ?id) @ ?tail)"
    using copy_at [of "?k # nm @ '' ''" 5 "zeros 4" ?id ?tail] nm idb by simp
  show ?thesis
  proof (cases "d = []")
    case True
    then show ?thesis
      unfolding BroadcastPacket_MarshalPacket_def Let_def payload_size buf
      using 1 2 3 4 finish_payload [of "?k # nm @ '' '' @ ?id" 9 d] nm idb
      by (simp add: payload_part_def)
  next
    case False
    then show ?thesis
      unfolding BroadcastPacket_MarshalPacket_def Let_def payload_size buf
      using 1 2 3 4 finish_payload [of "?k # nm @ '' '' @ ?id" 9 d] nm idb
      by (simp add: payload_part_def)
  qed
qed

lemma marshal_target:
  assumes nm: "length nm = 3" and idb: "length (SID_MarshalAdc T s) = 4"
    and tgb: "length (SID_MarshalAdc T t) = 4"
  shows "target_MarshalPacket T k nm d s t =
         Inr (k # nm @ CHR '' '' # SID_MarshalAdc T s @ CHR '' '' # SID_MarshalAdc T t @
              payload_part d @ [lineDelim])"
proof -
  let ?id = "SID_MarshalAdc T s"
  let ?tg = "SID_MarshalAdc T t"
  let ?tail = "zeros (length (payload_part d)) @ zeros 1"
  have buf: "make_bytes (15 + length (payload_part d)) =
             [] @ CHR 0x00 # zeros 3 @ CHR 0x00 # zeros 4 @ CHR 0x00 # zeros 4 @ ?tail"
    by (simp add: make_bytes_def zeros_def eval_nat_numeral replicate_append_same)
  have 1: "put ([] @ CHR 0x00 # zeros 3 @ CHR 0x00 # zeros 4 @ CHR 0x00 # zeros 4 @ ?tail) 0 k =
           Inr ([k] @ zeros 3 @ CHR 0x00 # zeros 4 @ CHR 0x00 # zeros 4 @ ?tail)"
    using put_at [of "[]" 0 _ _ k] by simp
  have 2: "copy_to ([k] @ zeros 3 @ CHR 0x00 # zeros 4 @ CHR 0x00 # zeros 4 @ ?tail) 1 nm =
           Inr ((k # nm) @ CHR 0x00 # zeros 4 @ CHR 0x00 # zeros 4 @ ?tail)"
    using copy_at [of "[k]" 1 "zeros 3" nm] nm by simp
  have 3: "put ((k # nm) @ CHR 0x00 # zeros 4 @ CHR 0x00 # zeros 4 @ ?tail) 4 (CHR '' '') =
           Inr ((k # nm @ '' '') @ zeros 4 @ CHR 0x00 # zeros 4 @ ?tail)"
    using put_at [of "k # nm" 4 _ _ "CHR '' ''"] nm by simp
  have 4: "copy_to ((k # nm @ '' '') @ zeros 4 @ CHR 0x00 # zeros 4 @ ?tail) 5 ?id =
           Inr ((k # nm @ '' '' @ ?id) @ CHR 0x00 # zeros 4 @ ?tail)"
    using copy_at [of "k # nm @ '' ''" 5 "zeros 4" ?id] nm idb by simp
  have 5: "put ((k # nm @ '' '' @ ?id) @ CHR 0x00 # zeros 4 @ ?tail) 9 (CHR '' '') =
           Inr ((k # nm @ '' '' @ ?id @ '' '') @ zeros 4 @ ?tail)"
    using put_at [of "k # nm @ '' '' @ ?id" 9 _ _ "CHR '' ''"] nm idb by simp
  have 6: "copy_to ((k # nm @ '' '' @ ?id @ '' '') @ zeros 4 @ ?tail) 10 ?tg =
           Inr ((k # nm @ '' '' @ ?id @ '' '' @ ?tg) @ ?tail)"
    using copy_at [of "k # nm @ '' '' @ ?id @ '' ''" 10 "zeros 4" ?tg ?tail] nm idb tgb by simp
  show ?thesis
  proof (cases "d = []")
    case True
    then show ?thesis
      unfolding target_MarshalPacket_def Let_def payload_size buf
      using 1 2 3 4 5 6 finish_payload [of "k # nm @ '' '' @ ?id @ '' '' @ ?tg" 14 d] nm idb tgb
      by (simp add: payload_part_def)
  next
    case False
    then show ?thesis
      unfolding target_MarshalPacket_def Let_def payload_size buf
      using 1 2 3 4 5 6 finish_payload [of "k # nm @ '' '' @ ?id @ '' '' @ ?tg" 14 d] nm idb tgb
      by (simp add: payload_part_def)
  qed
qed

lemma marshal_UDP:
  assumes nm: "length nm = 3" and cb: "length (CID_ToBase32 T c) = 39"
  shows "UDPPacket_MarshalPacket T nm d c =
         Inr (CHR ''U'' # nm @ CHR '' '' # CID_ToBase32 T c @ payload_part d @ [lineDelim])"
proof -
  let ?id = "CID_ToBase32 T c"
  let ?tail = "zeros (length (payload_part d)) @ zeros 1"
  let ?k = "CHR ''U''"
  have buf: "make_bytes (39 + 5 + 1 + length (payload_part d)) =
             [] @ CHR 0x00 # zeros 3 @ CHR 0x00 # zeros 39 @ ?tail"
    by (simp add: make_bytes_def zeros_def replicate_add [symmetric] replicate_append_same
        flip: replicate_Suc)
  have 1: "put ([] @ CHR 0x00 # zeros 3 @ CHR 0x00 # zeros 39 @ ?tail) 0 ?k =
           Inr ([?k] @ zeros 3 @ CHR 0x00 # zeros 39 @ ?tail)"
    using put_at [of "[]" 0 _ _ ?k] by simp
  have 2: "copy_to ([?k] @ zeros 3 @ CHR 0x00 # zeros 39 @ ?tail) 1 nm =
           Inr ((?k # nm) @ CHR 0x00 # zeros 39 @ ?tail)"
    using copy_at [of "[?k]" 1 "zeros 3" nm] nm by simp
  have 3: "put ((?k # nm) @ CHR 0x00 # zeros 39 @ ?tail) 4 (CHR '' '') =
           Inr ((?k # nm @ '' '') @ zeros 39 @ ?tail)"
    using put_at [of "?k # nm" 4 _ _ "CHR '' ''"] nm by simp
  have 4: "copy_to ((?k # nm @ '' '') @ zeros 39 @ ?tail) 5 ?id =
           Inr ((?k # nm @ '' '' @ ?id) @ ?tail)"
    using copy_at [of "?k # nm @ '' ''" 5 "zeros 39" ?id ?tail] nm cb by simp
  show ?thesis
  proof (cases "d = []")
    case True
    then show ?thesis
      unfolding UDPPacket_MarshalPacket_def Let_def payload_size buf
      using 1 2 3 4 finish_payload [of "?k # nm @ '' '' @ ?id" 44 d] nm cb
      by (simp add: payload_part_def)
  next
    case False
    then show ?thesis
      unfolding UDPPacket_MarshalPacket_def Let_def payload_size buf
      using 1 2 3 4 finish_payload [of "?k # nm @ '' '' @ ?id" 44 d] nm cb
      by (simp add: payload_part_def)
  qed
qed

lemma length_tokens: "tags4 kvs \<Longrightarrow> length (tokens kvs) = 6 * length kvs"
  by (induction kvs) (auto simp: tokens_def tags4_def)

lemma size_tokens:
  "tags4 kvs \<Longrightarrow> fold (\<lambda>(k, v) n. n + (2 + length k)) kvs n = n + 6 * length kvs"
  by (induction kvs arbitrary: n) (auto simp: tags4_def)

lemma feature_write_tokens:
  assumes "length pre = off" and "tags4 kvs"
  shows "feature_write (pre @ zeros (6 * length kvs) @ rest) off kvs =
         Inr (pre @ tokens kvs @ rest, off + 6 * length kvs)"
  using assms
proof (induction kvs arbitrary: pre off)
  case Nil
  then show ?case by (simp add: tokens_def zeros_def)
next
  case (Cons kv kvs)
  obtain t b where kv: "kv = (t, b)" by (cases kv)
  have t: "length t = 4" and tags: "tags4 kvs" using Cons.prems kv by (simp_all add: tags4_def)
  let ?rest = "zeros (6 * length kvs) @ rest"
  have buf: "pre @ zeros (6 * length ((t, b) # kvs)) @ rest =
             pre @ CHR 0x00 # CHR 0x00 # zeros 4 @ ?rest"
    by (simp add: zeros_def eval_nat_numeral replicate_add [symmetric] flip: replicate_Suc replicate_append_same)
  have 1: "put (pre @ CHR 0x00 # CHR 0x00 # zeros 4 @ ?rest) off (CHR '' '') =
           Inr (pre @ CHR '' '' # CHR 0x00 # zeros 4 @ ?rest)"
    using put_at [of pre off] Cons.prems by simp
  have 2: "put (pre @ CHR '' '' # CHR 0x00 # zeros 4 @ ?rest) (off + 1) (sigil b) =
           Inr ((pre @ [CHR '' '', sigil b]) @ zeros 4 @ ?rest)"
    using put_at [of "pre @ '' ''" "off + 1" _ _ "sigil b"] Cons.prems by simp
  have 3: "copy_to ((pre @ [CHR '' '', sigil b]) @ zeros 4 @ ?rest) (off + 2) t =
           Inr ((pre @ CHR '' '' # sigil b # t) @ ?rest)"
    using copy_at [of "pre @ [CHR '' '', sigil b]" "off + 2" "zeros 4" t ?rest] Cons.prems t
    by simp
  have n: "min (length ((pre @ [CHR '' '', sigil b]) @ zeros 4 @ ?rest) - (off + 2)) (length t) = 4"
    using Cons.prems t by simp
  have IH: "feature_write ((pre @ CHR '' '' # sigil b # t) @ ?rest) (off + (2 + 4)) kvs =
            Inr ((pre @ CHR '' '' # sigil b # t) @ tokens kvs @ rest, off + (2 + 4) + 6 * length kvs)"
    using Cons.IH [of "pre @ CHR '' '' # sigil b # t" "off + (2 + 4)"] Cons.prems t tags by simp
  have step: "feature_write B off ((t, b) # kvs) =
      bnd (put B off (CHR '' '')) (\<lambda>buf.
      bnd (put buf (off + 1) (sigil b)) (\<lambda>buf.
      bnd (copy_to buf (off + 2) t) (\<lambda>buf'.
      feature_write buf' (off + (2 + min (length buf - (off + 2)) (length t))) kvs)))" for B
    by (simp add: sigil_def Let_def)
  have "feature_write (pre @ zeros (6 * length ((t, b) # kvs)) @ rest) off ((t, b) # kvs) =
        feature_write ((pre @ CHR '' '' # sigil b # t) @ ?rest) (off + (2 + 4)) kvs"
    unfolding step buf by (simp only: 1 2 3 n bnd_Inr)
  also have "\<dots> = Inr (pre @ tokens ((t, b) # kvs) @ rest, off + 6 * length ((t, b) # kvs))"
    unfolding IH by (simp add: tokens_def)
  finally show ?case unfolding kv .
qed

lemma marshal_Feature:
  assumes nm: "length nm = 3" and idb: "length (SID_MarshalAdc T s) = 4" and tags: "tags4 kvs"
  shows "FeaturePacket_MarshalPacket T nm d s kvs =
         Inr (CHR ''F'' # nm @ CHR '' '' # SID_MarshalAdc T s @ tokens kvs @ payload_part d @
              [lineDelim])"
proof -
  let ?id = "SID_MarshalAdc T s"
  let ?tail = "zeros (length (payload_part d)) @ zeros 1"
  let ?toks = "zeros (6 * length kvs) @ ?tail"
  let ?k = "CHR ''F''"
  have buf: "make_bytes (10 + length (payload_part d) + 6 * length kvs) =
             [] @ CHR 0x00 # zeros 3 @ CHR 0x00 # zeros 4 @ ?toks"
    by (simp add: make_bytes_def zeros_def replicate_add [symmetric] replicate_append_same
        flip: replicate_Suc)
  have 1: "put ([] @ CHR 0x00 # zeros 3 @ CHR 0x00 # zeros 4 @ ?toks) 0 ?k =
           Inr ([?k] @ zeros 3 @ CHR 0x00 # zeros 4 @ ?toks)"
    using put_at [of "[]" 0 _ _ ?k] by simp
  have 2: "copy_to ([?k] @ zeros 3 @ CHR 0x00 # zeros 4 @ ?toks) 1 nm =
           Inr ((?k # nm) @ CHR 0x00 # zeros 4 @ ?toks)"
    using copy_at [of "[?k]" 1 "zeros 3" nm] nm by simp
  have 3: "put ((?k # nm) @ CHR 0x00 # zeros 4 @ ?toks) 4 (CHR '' '') =
           Inr ((?k # nm @ '' '') @ zeros 4 @ ?toks)"
    using put_at [of "?k # nm" 4 _ _ "CHR '' ''"] nm by simp
  have 4: "copy_to ((?k # nm @ '' '') @ zeros 4 @ ?toks) 5 ?id =
           Inr ((?k # nm @ '' '' @ ?id) @ ?toks)"
    using copy_at [of "?k # nm @ '' ''" 5 "zeros 4" ?id ?toks] nm idb by simp
  have 5: "feature_write ((?k # nm @ '' '' @ ?id) @ ?toks) 9 kvs =
           Inr ((?k # nm @ '' '' @ ?id) @ tokens kvs @ ?tail, 9 + 6 * length kvs)"
    using feature_write_tokens [of "?k # nm @ '' '' @ ?id" 9 kvs ?tail] nm idb tags by simp
  have 6: "length (?k # nm @ '' '' @ ?id @ tokens kvs) = 9 + 6 * length kvs"
    using nm idb tags by (simp add: length_tokens)
  show ?thesis
  proof (cases "d = []")
    case True
    then show ?thesis
      unfolding FeaturePacket_MarshalPacket_def Let_def payload_size size_tokens [OF tags] buf
      using 1 2 3 4 5 finish_payload [OF 6, of d] nm idb
      by (simp add: payload_part_def)
  next
    case False
    then show ?thesis
      unfolding FeaturePacket_MarshalPacket_def Let_def payload_size size_tokens [OF tags] buf
      using 1 2 3 4 5 finish_payload [OF 6, of d] nm idb
      by (simp add: payload_part_def)
  qed
qed

subsection \<open>Decoding what MarshalPacket returned\<close>

lemma region_items:
  "kvs \<noteq> [] \<or> d \<noteq> [] \<Longrightarrow>
   tokens kvs @ payload_part d = CHR '' '' # render (items_of kvs d) @ d"
  by (induction kvs d rule: items_of.induct)
     (auto simp: tokens_def payload_part_def render_def)

lemma items_tags: "tags4 kvs \<Longrightarrow> list_all tag_ok (items_of kvs d)"
  by (induction kvs d rule: items_of.induct) (auto simp: tags4_def)

lemma items_features:
  "fold put_item (items_of kvs d) F = fold (\<lambda>(t, b) m. m(t \<mapsto> b)) kvs F"
  by (induction kvs d arbitrary: F rule: items_of.induct) auto

lemma fold_upd_distinct:
  "distinct (map fst kvs) \<Longrightarrow> fold (\<lambda>(t, b) m. m(t \<mapsto> b)) kvs F = F ++ map_of kvs"
proof (induction kvs arbitrary: F)
  case Nil
  then show ?case by simp
next
  case (Cons kv kvs)
  obtain t b where kv: "kv = (t, b)" by (cases kv)
  have "t \<notin> dom (map_of kvs)" using Cons.prems kv by (auto simp: dom_map_of_conv_image_fst)
  then have swap: "F(t \<mapsto> b) ++ map_of kvs = (F ++ map_of kvs)(t \<mapsto> b)"
    by (auto simp: map_add_def fun_eq_iff split: option.splits)
  have "fold (\<lambda>(t, b) m. m(t \<mapsto> b)) (kv # kvs) F =
        fold (\<lambda>(t, b) m. m(t \<mapsto> b)) kvs (F(t \<mapsto> b))"
    using kv by simp
  also have "\<dots> = F(t \<mapsto> b) ++ map_of kvs"
    using Cons.prems by (intro Cons.IH) simp
  also have "\<dots> = F ++ map_of (kv # kvs)"
    unfolding swap using kv by simp
  finally show ?case .
qed

lemma nul_payload_part: "CHR 0x00 \<notin> set d \<Longrightarrow> CHR 0x00 \<notin> set (payload_part d)"
  by (simp add: payload_part_def)

lemma nul_tokens:
  "list_all (\<lambda>(t, b). length t = 4 \<and> CHR 0x00 \<notin> set t) kvs \<Longrightarrow> CHR 0x00 \<notin> set (tokens kvs)"
  by (induction kvs) (auto simp: tokens_def sigil_def)

lemma tags4_nul:
  "list_all (\<lambda>(t, b). length t = 4 \<and> CHR 0x00 \<notin> set t) kvs \<Longrightarrow> tags4 kvs"
  by (induction kvs) (auto simp: tags4_def)

lemma round_trip_plain_payload:
  assumes "name_wf nm" and "CHR 0x00 \<notin> set d" and "d \<noteq> []" and "k \<in> set ''IHEDBFCU''"
  shows "bnd (plain_MarshalPacket k nm d) (\<lambda>buf. DecodePacket T (from_make buf)) =
         UnmarshalPacket T k nm \<lparr>vis = d @ [lineDelim], ext = []\<rparr>"
proof -
  have nm: "length nm = 3" using assms by (simp add: name_wf_def)
  have "CHR 0x00 \<notin> set (nm @ d @ [lineDelim])"
    using assms by (simp add: name_wf_def lineDelim_def)
  from decode_frame_raw [OF nm assms(4) this, of T "[]"]
  show ?thesis using assms(3) by (simp add: marshal_plain [OF nm] from_make_def payload_part_def)
qed

lemma round_trip_plain_bare:
  assumes "name_wf nm" and "k \<in> set ''IHEDBFCU''"
  shows "bnd (plain_MarshalPacket k nm []) (\<lambda>buf. DecodePacket T (from_make buf)) =
         UnmarshalPacket T k nm nil_slice"
proof -
  have nm: "length nm = 3" and nul: "CHR 0x00 \<notin> set nm" using assms by (simp_all add: name_wf_def)
  from decode_frame_bare [OF nm assms(2) nul, of T "[]"]
  show ?thesis by (simp add: marshal_plain [OF nm] from_make_def payload_part_def)
qed

lemma round_trip_Info:
  assumes "name_wf nm" and "CHR 0x00 \<notin> set d"
  shows "decode_marshalled T order (InfoPacket nm d) = Inr (InfoPacket nm d)"
proof (cases "d = []")
  case True
  then show ?thesis
    using round_trip_plain_bare [OF assms(1), of "CHR ''I''" T]
    by (simp add: decode_marshalled_def InfoPacket_MarshalPacket_def unmarshal_Info)
next
  case False
  then show ?thesis
    using round_trip_plain_payload [OF assms False, of "CHR ''I''" T]
    by (simp add: decode_marshalled_def InfoPacket_MarshalPacket_def unmarshal_Info)
qed

lemma round_trip_Hub:
  assumes "name_wf nm" and "CHR 0x00 \<notin> set d" and "d \<noteq> []"
  shows "decode_marshalled T order (HubPacket nm d) = Inr (HubPacket nm d)"
  using round_trip_plain_payload [OF assms, of "CHR ''H''" T]
  by (simp add: decode_marshalled_def HubPacket_MarshalPacket_def unmarshal_Hub)

lemma round_trip_Client:
  assumes "name_wf nm" and "CHR 0x00 \<notin> set d" and "d \<noteq> []"
  shows "decode_marshalled T order (ClientPacket nm d) = Inr (ClientPacket nm d)"
  using round_trip_plain_payload [OF assms, of "CHR ''C''" T]
  by (simp add: decode_marshalled_def ClientPacket_MarshalPacket_def unmarshal_Client)

lemma round_trip_Broadcast:
  assumes "name_wf nm" and "CHR 0x00 \<notin> set d" and "SID_wf T s"
  shows "decode_marshalled T order (BroadcastPacket nm d s) = Inr (BroadcastPacket nm d s)"
proof -
  let ?id = "SID_MarshalAdc T s"
  have nm: "length nm = 3" using assms by (simp add: name_wf_def)
  have idb: "length ?id = 4" and sid: "SID_UnmarshalAdc T ?id = Inr s"
    using assms by (simp_all add: SID_wf_def)
  have "CHR 0x00 \<notin> set (nm @ ?id @ payload_part d @ [lineDelim])"
    using assms by (simp add: name_wf_def SID_wf_def lineDelim_def payload_part_def)
  from decode_frame_raw [OF nm _ this, of "CHR ''B''" T "[]"]
  show ?thesis
    by (simp add: decode_marshalled_def marshal_Broadcast [OF nm idb] from_make_def
        unmarshal_Broadcast [OF idb sid])
qed

lemma round_trip_target:
  assumes "name_wf nm" and "CHR 0x00 \<notin> set d" and "SID_wf T s" and "SID_wf T t"
  shows "decode_marshalled T order (DirectPacket nm d s t) = Inr (DirectPacket nm d s t)"
    and "decode_marshalled T order (EchoPacket nm d s t) = Inr (EchoPacket nm d s t)"
proof -
  let ?id = "SID_MarshalAdc T s"
  let ?tg = "SID_MarshalAdc T t"
  have nm: "length nm = 3" using assms by (simp add: name_wf_def)
  have idb: "length ?id = 4" and sid: "SID_UnmarshalAdc T ?id = Inr s"
    and tgb: "length ?tg = 4" and tg: "SID_UnmarshalAdc T ?tg = Inr t"
    using assms by (simp_all add: SID_wf_def)
  have nul: "CHR 0x00 \<notin> set (nm @ ?id @ CHR '' '' # ?tg @ payload_part d @ [lineDelim])"
    using assms by (simp add: name_wf_def SID_wf_def lineDelim_def payload_part_def)
  from decode_frame_raw [OF nm _ nul, of "CHR ''D''" T "[]"]
  show "decode_marshalled T order (DirectPacket nm d s t) = Inr (DirectPacket nm d s t)"
    by (simp add: decode_marshalled_def DirectPacket_MarshalPacket_def
        marshal_target [OF nm idb tgb] from_make_def unmarshal_Direct [OF idb sid tgb tg])
  from decode_frame_raw [OF nm _ nul, of "CHR ''E''" T "[]"]
  show "decode_marshalled T order (EchoPacket nm d s t) = Inr (EchoPacket nm d s t)"
    by (simp add: decode_marshalled_def EchoPacket_MarshalPacket_def
        marshal_target [OF nm idb tgb] from_make_def unmarshal_Echo [OF idb sid tgb tg])
qed

lemma round_trip_UDP:
  assumes "name_wf nm" and "CHR 0x00 \<notin> set d" and "CID_wf T c"
  shows "decode_marshalled T order (UDPPacket nm d c) = Inr (UDPPacket nm d c)"
proof -
  let ?id = "CID_ToBase32 T c"
  have nm: "length nm = 3" using assms by (simp add: name_wf_def)
  have cb: "length ?id = 39" and cid: "CID_FromBase32 T ?id = Inr c"
    using assms by (simp_all add: CID_wf_def)
  have "CHR 0x00 \<notin> set (nm @ ?id @ payload_part d @ [lineDelim])"
    using assms by (simp add: name_wf_def CID_wf_def lineDelim_def payload_part_def)
  from decode_frame_raw [OF nm _ this, of "CHR ''U''" T "[]"]
  show ?thesis
    by (simp add: decode_marshalled_def marshal_UDP [OF nm cb] from_make_def
        unmarshal_UDP [OF cb cid])
qed

lemma round_trip_Feature:
  assumes "name_wf nm" and "CHR 0x00 \<notin> set d" and "payload_start d" and "SID_wf T s"
    and "Features_wf (order F) F"
  shows "decode_marshalled T order (FeaturePacket nm d s F) = Inr (FeaturePacket nm d s F)"
proof -
  let ?id = "SID_MarshalAdc T s"
  let ?kvs = "order F"
  have nm: "length nm = 3" using assms by (simp add: name_wf_def)
  have idb: "length ?id = 4" and sid: "SID_UnmarshalAdc T ?id = Inr s"
    using assms by (simp_all add: SID_wf_def)
  have kvs: "list_all (\<lambda>(t, b). length t = 4 \<and> CHR 0x00 \<notin> set t) ?kvs"
    and dist: "distinct (map fst ?kvs)" and mp: "map_of ?kvs = F"
    using assms by (simp_all add: Features_wf_def)
  have tags: "tags4 ?kvs" using kvs by (rule tags4_nul)
  have nul: "CHR 0x00 \<notin> set (nm @ ?id @ tokens ?kvs @ payload_part d @ [lineDelim])"
    using assms nul_tokens [OF kvs]
    by (simp add: name_wf_def SID_wf_def lineDelim_def payload_part_def)
  have dec: "decode_marshalled T order (FeaturePacket nm d s F) =
             FeaturePacket_UnmarshalPacket T nm
               \<lparr>vis = ?id @ tokens ?kvs @ payload_part d @ [lineDelim], ext = []\<rparr>"
    using decode_frame_raw [OF nm _ nul, of "CHR ''F''" T "[]"]
    by (simp add: decode_marshalled_def marshal_Feature [OF nm idb tags] from_make_def)
  show ?thesis
  proof (cases "?kvs = [] \<and> d = []")
    case True
    then have "F = Map.empty" using mp by auto
    then show ?thesis
      using True unmarshal_no_region [OF idb sid, of nm "[]"]
      unfolding dec by (simp add: tokens_def payload_part_def)
  next
    case False
    then have "tokens ?kvs @ payload_part d = CHR '' '' # render (items_of ?kvs d) @ d"
      by (intro region_items) auto
    then have "(tokens ?kvs @ payload_part d) @ [lineDelim] =
               (CHR '' '' # render (items_of ?kvs d) @ d) @ [lineDelim]"
      by (rule arg_cong)
    then have reg: "tokens ?kvs @ payload_part d @ [lineDelim] =
                    CHR '' '' # render (items_of ?kvs d) @ d @ [lineDelim]"
      by simp
    have "fold put_item (items_of ?kvs d) Map.empty = F"
      using fold_upd_distinct [OF dist, of Map.empty] mp by (simp add: items_features)
    then show ?thesis
      using unmarshal_region [OF idb sid items_tags [OF tags, of d] assms(3), of nm "[]"]
      unfolding dec reg by simp
  qed
qed
text \<open>
  Every well-formed packet that is not bare comes back from decoding what
  \<^verbatim>\<open>MarshalPacket\<close> returned for it, whatever the order in which the feature map
  was visited.
\<close>

lemma round_trip:
  assumes "well_formed T order p" and "\<not> bare p"
  shows "decode_marshalled T order p = Inr p"
  using assms
  by (cases p)
     (simp_all add: round_trip_Info round_trip_Hub round_trip_Client round_trip_Broadcast
       round_trip_target round_trip_UDP round_trip_Feature)

subsection \<open>Frames the encoder and the decoder disagree on\<close>

lemma marshal_plain_empty:
  "plain_MarshalPacket k ''SUP'' [] = Inr (k # ''SUP'' @ [lineDelim])"
  by (simp add: plain_MarshalPacket_def make_bytes_def put_def copy_to_def Let_def
      eval_nat_numeral)

text \<open>
  C1. Decoding what \<^verbatim>\<open>MarshalPacket\<close> returns should give the packet back, also
  for a packet with an empty payload. For the Hub packet \<^verbatim>\<open>SUP\<close> with no payload
  \<^verbatim>\<open>MarshalPacket\<close> returns the five bytes \<^verbatim>\<open>HSUP\<close> and the line delimiter, and
  \<^verbatim>\<open>DecodePacket\<close> answers them with the error \<^verbatim>\<open>short hub command\<close>; the Client
  packet fares the same, while the Info packet is decoded.
\<close>

theorem Hub_empty_payload_not_decoded:
  "MarshalPacket T order (HubPacket ''SUP'' []) = Inr (''HSUP'' @ [lineDelim]) \<and>
   decode_marshalled T order (HubPacket ''SUP'' []) = Inl (Errorf ''short hub command'') \<and>
   decode_marshalled T order (ClientPacket ''SUP'' []) = Inl (Errorf ''short client command'') \<and>
   decode_marshalled T order (InfoPacket ''SUP'' []) = Inr (InfoPacket ''SUP'' [])"
  by (simp add: decode_marshalled_def HubPacket_MarshalPacket_def ClientPacket_MarshalPacket_def
      InfoPacket_MarshalPacket_def marshal_plain_empty
      lineDelim_def from_make_def DecodePacket_def UnmarshalPacket_def len_def cap_def
      reslice_def reslice_from_def nil_slice_def HubPacket_UnmarshalPacket_def
      ClientPacket_UnmarshalPacket_def InfoPacket_UnmarshalPacket_def Let_def)

subsection \<open>Frames that are rejected\<close>

lemma rejected_simps [simp]:
  "rejected (Inl (Errorf m))" "\<not> rejected (Inr x)" "\<not> rejected (Inl (Panic m))"
  by (simp_all add: rejected_def)

lemma null_byte_rejected:
  "CHR 0x00 \<in> set (vis p) \<Longrightarrow> rejected (DecodePacket T p)"
  by (simp add: DecodePacket_def)

lemma short_frame_rejected:
  "len p < 5 \<Longrightarrow> rejected (DecodePacket T p)"
  by (simp add: DecodePacket_def)

lemma no_delimiter_rejected:
  assumes "vis raw \<noteq> []" and "vis raw ! (len raw - 1) \<noteq> lineDelim"
  shows "rejected (UnmarshalPacket T k nm raw)"
  using assms
  by (simp add: UnmarshalPacket_def InfoPacket_UnmarshalPacket_def HubPacket_UnmarshalPacket_def
      ClientPacket_UnmarshalPacket_def BroadcastPacket_UnmarshalPacket_def
      DirectPacket_UnmarshalPacket_def EchoPacket_UnmarshalPacket_def
      FeaturePacket_UnmarshalPacket_def UDPPacket_UnmarshalPacket_def len_def Let_def)

lemma empty_rest_rejected:
  assumes "vis raw = []" and "k \<noteq> CHR ''I''"
  shows "rejected (UnmarshalPacket T k nm raw)"
  using assms
  by (simp add: UnmarshalPacket_def HubPacket_UnmarshalPacket_def
      ClientPacket_UnmarshalPacket_def BroadcastPacket_UnmarshalPacket_def
      DirectPacket_UnmarshalPacket_def EchoPacket_UnmarshalPacket_def
      FeaturePacket_UnmarshalPacket_def UDPPacket_UnmarshalPacket_def len_def Let_def)

text \<open>
  A frame of 5 bytes or more that does not end with the line delimiter is rejected,
  unless it is an Info frame whose name is followed by the delimiter or by a space
  and nothing more.
\<close>

lemma without_final_delimiter:
  assumes l: "5 \<le> len p" and last: "vis p ! (len p - 1) \<noteq> lineDelim"
  shows "rejected (DecodePacket T p) \<or>
         vis p ! 0 = CHR ''I'' \<and> (vis p ! 4 = lineDelim \<or> vis p ! 4 = CHR '' '' \<and> len p = 5)"
proof (cases "CHR 0x00 \<in> set (vis p) \<or> vis p ! 0 \<notin> set ''IHEDBFCU''")
  case True
  then show ?thesis using l by (auto simp: DecodePacket_def Let_def)
next
  case False
  let ?k = "vis p ! 0"
  have cname: "reslice p 1 4 = Inr \<lparr>vis = take 3 (drop 1 (vis p @ ext p)), ext = drop 4 (vis p @ ext p)\<rparr>"
    using l by (simp add: reslice_def cap_def len_def)
  have p4: "reslice_from p 4 = Inr \<lparr>vis = drop 4 (vis p), ext = ext p\<rparr>"
    using l by (simp add: reslice_from_vis)
  have at4: "drop 4 (vis p) ! 0 = vis p ! 4" using l by (simp add: len_def)
  have l4: "len \<lparr>vis = drop 4 (vis p), ext = ext p\<rparr> > 0" using l by (simp add: len_def)
  have dec: "DecodePacket T p =
        bnd (if vis p ! 4 = CHR '' '' then reslice_from \<lparr>vis = drop 4 (vis p), ext = ext p\<rparr> 1
             else if vis p ! 4 \<noteq> lineDelim then Inl (Errorf ''name separator expected'')
             else Inr nil_slice)
          (\<lambda>raw. UnmarshalPacket T ?k (take 3 (drop 1 (vis p @ ext p))) raw)"
    using False l cname p4 at4 l4 unfolding DecodePacket_def Let_def by simp
  show ?thesis
  proof (cases "vis p ! 4 = CHR '' ''")
    case sp: True
    have raw: "reslice_from \<lparr>vis = drop 4 (vis p), ext = ext p\<rparr> 1 =
               Inr \<lparr>vis = drop 5 (vis p), ext = ext p\<rparr>"
      using l by (simp add: reslice_from_vis len_def)
    show ?thesis
    proof (cases "len p = 5")
      case True
      then have "vis \<lparr>vis = drop 5 (vis p), ext = ext p\<rparr> = []" by (simp add: len_def)
      from empty_rest_rejected [OF this, of ?k T "take 3 (drop 1 (vis p @ ext p))"] show ?thesis
        using sp True raw unfolding dec by auto
    next
      case False
      then have ne: "vis \<lparr>vis = drop 5 (vis p), ext = ext p\<rparr> \<noteq> []" using l by (simp add: len_def)
      have "vis \<lparr>vis = drop 5 (vis p), ext = ext p\<rparr> ! (len \<lparr>vis = drop 5 (vis p), ext = ext p\<rparr> - 1) =
            vis p ! (len p - 1)"
        using l False by (simp add: len_def)
      then have "vis \<lparr>vis = drop 5 (vis p), ext = ext p\<rparr> !
                   (len \<lparr>vis = drop 5 (vis p), ext = ext p\<rparr> - 1) \<noteq> lineDelim"
        using last by simp
      from no_delimiter_rejected [OF ne this, of T ?k "take 3 (drop 1 (vis p @ ext p))"]
      show ?thesis using sp raw unfolding dec by simp
    qed
  next
    case nsp: False
    show ?thesis
    proof (cases "vis p ! 4 = lineDelim")
      case True
      have "vis nil_slice = []" by (simp add: nil_slice_def)
      from empty_rest_rejected [OF this, of ?k T "take 3 (drop 1 (vis p @ ext p))"] show ?thesis
        using nsp True unfolding dec by auto
    next
      case False
      then show ?thesis using nsp unfolding dec by simp
    qed
  qed
qed

text \<open>
  C2. A frame without the final line delimiter should be rejected. The five bytes
  \<^verbatim>\<open>IINF\<close> and a space hold no line delimiter, and \<^verbatim>\<open>DecodePacket\<close> returns an Info
  packet for them, whatever the capacity of the slice.
\<close>

theorem Info_without_delimiter_decoded:
  "DecodePacket T \<lparr>vis = ''IINF '', ext = e\<rparr> = Inr (InfoPacket ''INF'' [])"
  by (simp add: DecodePacket_def UnmarshalPacket_def len_def cap_def
      reslice_def reslice_from_def reslice_to_def nil_slice_def
      InfoPacket_UnmarshalPacket_def Let_def)

subsection \<open>A feature token cut short\<close>

text \<open>
  C10. \<^verbatim>\<open>DecodePacket\<close> should return a packet or an error for every input, with
  no access out of bounds. The frame \<^verbatim>\<open>FSCH AAAA +AB\<close> with its line delimiter
  ends in a feature token cut short, and building the error message re-slices
  \<^verbatim>\<open>data[i:i+5]\<close> past the length of \<^verbatim>\<open>data\<close>. In a slice whose capacity is its
  length the bound is past the capacity too, and the call panics. In a slice with
  capacity to spare the error is returned, and its message holds the bytes behind the
  frame. This holds for every SID decoder that accepts \<^verbatim>\<open>AAAA\<close>.
\<close>

theorem truncated_feature_panics:
  assumes "SID_UnmarshalAdc T ''AAAA'' = Inr s"
  shows "DecodePacket T (from_make (''FSCH AAAA +AB'' @ [lineDelim])) =
           Inl (Panic ''slice bounds out of range'') \<and>
         DecodePacket T \<lparr>vis = ''FSCH AAAA +AB'' @ [lineDelim], ext = ''next''\<rparr> =
           Inl (Errorf (''short feature: '' @ quoted (''+AB'' @ [lineDelim] @ ''n'')))"
proof
  have body: "feature_body \<lparr>vis = ''+AB'', ext = [lineDelim]\<rparr> 0 Map.empty =
              Inl (Panic ''slice bounds out of range'')"
    by (simp add: feature_body_def len_def cap_def reslice_def reslice_from_def)
  have loop: "feature_loop \<lparr>vis = ''+AB'', ext = [lineDelim]\<rparr> 0 Map.empty =
              Inl (Panic ''slice bounds out of range'')"
    by (subst feature_loop.simps) (simp add: body len_def)
  have "FeaturePacket_UnmarshalPacket T ''SCH'' \<lparr>vis = ''AAAA +AB'' @ [lineDelim], ext = []\<rparr> =
        Inl (Panic ''slice bounds out of range'')"
    using assms
    by (simp add: FeaturePacket_UnmarshalPacket_def len_def cap_def reslice_def reslice_from_def
        reslice_to_def loop)
  then show "DecodePacket T (from_make (''FSCH AAAA +AB'' @ [lineDelim])) =
             Inl (Panic ''slice bounds out of range'')"
    by (simp add: DecodePacket_def UnmarshalPacket_def len_def cap_def from_make_def
        lineDelim_def reslice_def reslice_from_def Let_def)
next
  let ?data = "\<lparr>vis = ''+AB'', ext = lineDelim # ''next''\<rparr>"
  let ?err = "Errorf (''short feature: '' @ quoted (''+AB'' @ [lineDelim] @ ''n''))"
  have body: "feature_body ?data 0 Map.empty = Inl ?err"
    by (simp add: feature_body_def len_def cap_def reslice_def reslice_from_def)
  have loop: "feature_loop ?data 0 Map.empty = Inl ?err"
    by (subst feature_loop.simps) (simp add: body len_def)
  have "FeaturePacket_UnmarshalPacket T ''SCH''
          \<lparr>vis = ''AAAA +AB'' @ [lineDelim], ext = ''next''\<rparr> = Inl ?err"
    using assms
    by (simp add: FeaturePacket_UnmarshalPacket_def len_def cap_def reslice_def reslice_from_def
        reslice_to_def loop)
  then show "DecodePacket T \<lparr>vis = ''FSCH AAAA +AB'' @ [lineDelim], ext = ''next''\<rparr> = Inl ?err"
    by (simp add: DecodePacket_def UnmarshalPacket_def len_def cap_def
        lineDelim_def reslice_def reslice_from_def Let_def)
qed

theorem truncated_feature_panics_witness:
  "SID_UnmarshalAdc text_types ''AAAA'' = Inr ''AAAA'' \<and>
   DecodePacket text_types (from_make (''FSCH AAAA +AB'' @ [lineDelim])) =
     Inl (Panic ''slice bounds out of range'')"
proof -
  have "SID_UnmarshalAdc text_types ''AAAA'' = Inr ''AAAA''"
    by (simp add: text_types_def base32_char_def)
  then show ?thesis using truncated_feature_panics [of text_types "''AAAA''"] by simp
qed

section \<open>Properties of the hub\<close>

subsection \<open>Names\<close>

lemma TrimLeft_space_length: "length (TrimLeft_space s) \<le> length s"
proof (induction s rule: TrimLeft_space.induct)
  case (1 s)
  show ?case
  proof (cases "leading_space s")
    case None
    then show ?thesis by (subst TrimLeft_space.simps) simp
  next
    case (Some q)
    with 1 have "length (TrimLeft_space (drop (length q) s)) \<le> length (drop (length q) s)"
      by simp
    then show ?thesis using Some by (subst TrimLeft_space.simps) simp
  qed
qed

lemma TrimRight_space_length: "length (TrimRight_space s) \<le> length s"
proof (induction s rule: TrimRight_space.induct)
  case (1 s)
  show ?case
  proof (cases "trailing_space s")
    case None
    then show ?thesis by (subst TrimRight_space.simps) simp
  next
    case (Some q)
    with 1 have "length (TrimRight_space (take (length s - length q) s))
                 \<le> length (take (length s - length q) s)" by simp
    then show ?thesis using Some by (subst TrimRight_space.simps) simp
  qed
qed

lemma TrimLeft_space_shorter:
  assumes "leading_space s = Some q"
  shows "length (TrimLeft_space s) < length s"
proof -
  from assms have "q \<noteq> []" and "prefix q s" using leading_space_Some by blast+
  then have "length (drop (length q) s) < length s"
    by (cases q) (auto dest: prefix_length_le)
  moreover have "length (TrimLeft_space (drop (length q) s)) \<le> length (drop (length q) s)"
    by (rule TrimLeft_space_length)
  ultimately show ?thesis
    using assms by (subst TrimLeft_space.simps) simp
qed

lemma TrimRight_space_shorter:
  assumes "trailing_space s = Some q"
  shows "length (TrimRight_space s) < length s"
proof -
  from assms have "q \<noteq> []" and "suffix q s" using trailing_space_Some by blast+
  then have "length (take (length s - length q) s) < length s"
    by (cases q) (auto dest: suffix_length_le)
  moreover have "length (TrimRight_space (take (length s - length q) s))
                 \<le> length (take (length s - length q) s)"
    by (rule TrimRight_space_length)
  ultimately show ?thesis
    using assms by (subst TrimRight_space.simps) simp
qed

text \<open>\<^verbatim>\<open>TrimSpace\<close> leaves a string as it is iff no white space starts or ends it.\<close>

lemma TrimSpace_id: "TrimSpace s = s \<longleftrightarrow> leading_space s = None \<and> trailing_space s = None"
proof (cases "leading_space s")
  case None
  then have left: "TrimLeft_space s = s" by (subst TrimLeft_space.simps) simp
  show ?thesis
  proof (cases "trailing_space s")
    case None
    then have "TrimRight_space s = s" by (subst TrimRight_space.simps) simp
    then show ?thesis using left None \<open>leading_space s = None\<close> by (simp add: TrimSpace_def)
  next
    case (Some q)
    then have "length (TrimSpace s) < length s"
      using left TrimRight_space_shorter by (simp add: TrimSpace_def)
    then have "TrimSpace s \<noteq> s" by auto
    then show ?thesis using Some by simp
  qed
next
  case (Some q)
  then have "length (TrimLeft_space s) < length s" by (rule TrimLeft_space_shorter)
  moreover have "length (TrimSpace s) \<le> length (TrimLeft_space s)"
    unfolding TrimSpace_def by (rule TrimRight_space_length)
  ultimately have "TrimSpace s \<noteq> s" by auto
  then show ?thesis using Some by simp
qed

lemma no_space_around_alice:
  "leading_space ''alice'' = None \<and> trailing_space ''alice'' = None"
  by (simp add: leading_space_def trailing_space_def space_runes_def suffix_def)

text \<open>
  C7, as amended. \<^verbatim>\<open>validateUserName\<close> accepts a name iff it is not empty, does not
  start with \<^verbatim>\<open>#\<close> or \<^verbatim>\<open>!\<close>, and neither starts nor ends with white space, that
  is with a rune that \<^verbatim>\<open>strings.TrimSpace\<close> removes; it does not ask that the name
  be printable. The answer depends on the name only, not on the hub.
\<close>

theorem validateUserName_accepts:
  "(validateUserName h nm = None \<longleftrightarrow>
      nm \<noteq> [] \<and> \<not> HasPrefix nm ''#'' \<and> \<not> HasPrefix nm ''!'' \<and>
      leading_space nm = None \<and> trailing_space nm = None) \<and>
   validateUserName h nm = validateUserName h' nm"
  using TrimSpace_id [of nm] by (auto simp: validateUserName_def)

theorem validateUserName_accepts_witness:
  "validateUserName (empty_Hub :: (memUsersDB, Peer) Hub) ''alice'' = None \<and>
   validateUserName (empty_Hub :: (memUsersDB, Peer) Hub) ''alice'' =
     validateUserName ((empty_Hub :: (memUsersDB, Peer) Hub)\<lparr>reserved := {''alice''}\<rparr>) ''alice''"
  using validateUserName_accepts
      [where h = "empty_Hub :: (memUsersDB, Peer) Hub" and nm = "''alice''"
        and h' = "(empty_Hub :: (memUsersDB, Peer) Hub)\<lparr>reserved := {''alice''}\<rparr>"]
    no_space_around_alice
  by (auto simp: HasPrefix_def)

text \<open>
  C7 as stated fails: the name that is the one byte 0x07, the control character BEL,
  is accepted, and it is not printable.
\<close>

theorem validateUserName_not_printable:
  "validateUserName (empty_Hub :: (memUsersDB, Peer) Hub) [CHR 0x07] = None \<and>
   \<not> Nickname_rules [CHR 0x07]"
proof -
  have "leading_space [CHR 0x07] = None" and "trailing_space [CHR 0x07] = None"
    by (simp_all add: leading_space_def trailing_space_def space_runes_def suffix_def)
  then have "TrimSpace [CHR 0x07] = [CHR 0x07]" by (simp add: TrimSpace_id)
  then show ?thesis
    by (simp add: validateUserName_def HasPrefix_def Nickname_rules_def printable_byte_def)
qed

subsection \<open>Registration\<close>

text \<open>
  C9. With no user database, \<^verbatim>\<open>RegisterUser\<close> returns the error
  \<^verbatim>\<open>user registration is disabled\<close> for every name and password and leaves the hub
  as it was; with a database it returns the error the database returns for this
  registration.
\<close>

theorem RegisterUser_nil_or_database:
  "(userDB h = None \<longrightarrow> Hub_RegisterUser I h nm pw = (h, Some ErrUserRegDisabled)) \<and>
   (userDB h = Some db \<longrightarrow>
      snd (Hub_RegisterUser I h nm pw) = snd (db_RegisterUser I db nm pw))"
  by (simp add: Hub_RegisterUser_def split: prod.splits)

theorem RegisterUser_nil_or_database_witness:
  "Hub_RegisterUser memUsersDB_methods (empty_Hub :: (memUsersDB, Peer) Hub) ''alice'' ''secret'' =
     (empty_Hub, Some ErrUserRegDisabled) \<and>
   snd (Hub_RegisterUser memUsersDB_methods
          ((empty_Hub :: (memUsersDB, Peer) Hub)\<lparr>userDB := Some NewUserDatabase\<rparr>)
          ''alice'' ''secret'') = None"
  using RegisterUser_nil_or_database
      [where h = "empty_Hub :: (memUsersDB, Peer) Hub" and I = memUsersDB_methods
        and nm = "''alice''" and pw = "''secret''"]
    RegisterUser_nil_or_database
      [where h = "(empty_Hub :: (memUsersDB, Peer) Hub)\<lparr>userDB := Some NewUserDatabase\<rparr>"
        and db = NewUserDatabase and I = memUsersDB_methods
        and nm = "''alice''" and pw = "''secret''"]
  by (simp add: empty_Hub_def memUsersDB_methods_def memUsersDB_RegisterUser_def)

section \<open>Properties of the IRC bridge\<close>

subsection \<open>The handshake\<close>

text \<open>
  C4, as amended. A pass of the NICK loop that has read a name ends in one of three
  ways. A name that fails validation ends the handshake with the validation error,
  and nothing is written. A valid name that is not available is answered with the
  numeric 433 carrying the name and the text of \<^verbatim>\<open>errNickTaken\<close>, and the loop goes
  on with the reads that are left. A valid name that is available is reserved, and
  the loop is left.
\<close>

theorem nick_attempt:
  assumes "read_nick name0 user0 reads = Inr (tname, usr, rest)"
  shows "(validateUserName h tname = Some err \<longrightarrow>
            ircHandshake_loop taken h pref name0 user0 reads = (Inl err, [])) \<and>
         (validateUserName h tname = None \<and> \<not> nameAvailable h tname \<longrightarrow>
            ircHandshake_loop taken h pref name0 user0 reads =
              (case ircHandshake_loop taken h pref tname usr rest of
                 (r, out) \<Rightarrow> (r, reply_433 pref tname taken # out))) \<and>
         (validateUserName h tname = None \<and> nameAvailable h tname \<longrightarrow>
            ircHandshake_loop taken h pref name0 user0 reads =
              (Inr (h\<lparr>reserved := insert tname (reserved h)\<rparr>, tname, usr, rest), []))"
  using assms by (subst (1 2 3) ircHandshake_loop.simps) (simp add: reserveName_def)

lemma alice_valid:
  "validateUserName ((empty_Hub :: (unit, unit) Hub)\<lparr>reserved := {''alice''}\<rparr>) ''alice'' = None"
proof -
  have "TrimSpace ''alice'' = ''alice''"
    using no_space_around_alice by (simp add: TrimSpace_id)
  then show ?thesis by (simp add: validateUserName_def HasPrefix_def)
qed

text \<open>
  With the name \<^verbatim>\<open>alice\<close> reserved by another connection, the attempt
  \<^verbatim>\<open>NICK alice\<close> is answered with 433 and the loop reads on.
\<close>

theorem nick_attempt_witness:
  "ircHandshake_loop ''nick taken'' ((empty_Hub :: (unit, unit) Hub)\<lparr>reserved := {''alice''}\<rparr>)
     hub_Prefix '''' '''' [Inr (NICK ''alice''), Inr (USER ''alice''), Inr (NICK ''bob'')] =
   (case ircHandshake_loop ''nick taken''
           ((empty_Hub :: (unit, unit) Hub)\<lparr>reserved := {''alice''}\<rparr>)
           hub_Prefix ''alice'' ''alice'' [Inr (NICK ''bob'')] of
      (r, out) \<Rightarrow>
        (r, \<lparr>Prefix = Some hub_Prefix, Command = ''433'',
              Params = [''*'', ''alice'', ''nick taken'']\<rparr> # out))"
  using nick_attempt [where ?name0.0 = "''''" and ?user0.0 = "''''"
      and reads = "[Inr (NICK ''alice''), Inr (USER ''alice''), Inr (NICK ''bob'')]"
      and tname = "''alice''" and usr = "''alice''" and rest = "[Inr (NICK ''bob'')]"
      and h = "(empty_Hub :: (unit, unit) Hub)\<lparr>reserved := {''alice''}\<rparr>"
      and taken = "''nick taken''" and pref = hub_Prefix]
    alice_valid
  by (simp add: read_nick_def NICK_def USER_def nameAvailable_def reply_433_def empty_Hub_def)

text \<open>
  C4 as stated fails: the attempt \<^verbatim>\<open>NICK #alice\<close> fails validation; no 433 is
  written, and the handshake returns the error although another \<^verbatim>\<open>NICK\<close> follows.
\<close>

theorem invalid_nick_ends_handshake:
  "ircHandshake_loop ''nick taken'' (empty_Hub :: (unit, unit) Hub) hub_Prefix '''' ''''
     [Inr (NICK ''#alice''), Inr (USER ''alice''), Inr (NICK ''alice'')] =
   (Inl (Errorf (''name should not start with '' @ quoted ''#'')), [])"
  by (subst ircHandshake_loop.simps)
     (simp add: read_nick_def NICK_def USER_def validateUserName_def HasPrefix_def)

subsection \<open>Close\<close>

lemma Close_calls_closed:
  "closed (st p) \<Longrightarrow> Close_calls cerrs p st = (replicate (length cerrs) None, st, [])"
  by (induction cerrs) (simp_all add: ircPeer_Close_def)

text \<open>
  C5. \<^verbatim>\<open>Close\<close> on a peer that is closed returns nil and does nothing. In any
  sequence of calls on a peer that is open, the first call closes the connection,
  marks the peer closed, invokes the hub's leave and returns what closing the
  connection returned; every later call returns nil; so the connection is closed
  once and leave is invoked once.
\<close>

theorem Close_once:
  "(closed (st p) \<longrightarrow> ircPeer_Close cerr p st = (None, st, [])) \<and>
   (\<not> closed (st p) \<longrightarrow>
      Close_calls (cerr # cerrs) p st =
        (cerr # replicate (length cerrs) None, st(p := (st p)\<lparr>closed := True\<rparr>),
         [conn_Close p, hub_leave p (sid (st p)) (name (st p))]))"
  by (simp add: ircPeer_Close_def Close_calls_closed)

theorem Close_once_witness:
  "ircPeer_Close None 0 (\<lambda>a. alice\<lparr>closed := True\<rparr>) = (None, \<lambda>a. alice\<lparr>closed := True\<rparr>, []) \<and>
   Close_calls [Some (Errorf ''broken pipe''), Some (Errorf ''closed''), None] 0 (\<lambda>a. alice) =
     ([Some (Errorf ''broken pipe''), None, None], (\<lambda>a. alice)(0 := alice\<lparr>closed := True\<rparr>),
      [conn_Close 0, hub_leave 0 1 ''alice''])"
  using Close_once [where st = "\<lambda>a. alice\<lparr>closed := True\<rparr>" and p = 0 and cerr = None
        and cerrs = "[]"]
    Close_once [where st = "\<lambda>a. alice" and p = 0 and cerr = "Some (Errorf ''broken pipe'')"
        and cerrs = "[Some (Errorf ''closed''), None]"]
  by (simp add: alice_def)

subsection \<open>Chat\<close>

text \<open>
  C6. \<^verbatim>\<open>ChatMsg\<close> with the peer itself as the sender returns nil and writes nothing.
  With any other sender, and the main room, it hands exactly one message to the
  connection of the peer, a \<^verbatim>\<open>PRIVMSG\<close> to the channel \<^verbatim>\<open>#hub\<close> with the text, and
  returns what the connection answered.
\<close>

theorem ChatMsg_no_echo:
  "ircPeer_ChatMsg io st p room (ircPeer_ptr p) msg = (None, []) \<and>
   (sender \<noteq> ircPeer_ptr p \<and> Room_Name room = '''' \<longrightarrow>
      (\<exists>m. ircPeer_ChatMsg io st p room sender msg = (io m, [WriteMessage p m]) \<and>
           Command m = ''PRIVMSG'' \<and> Params m = [ircHubChan, Text msg]))"
  by (cases sender) (auto simp: ircPeer_ChatMsg_def ircPeer_writeMessage_def Let_def)

theorem ChatMsg_no_echo_witness:
  "ircPeer_ChatMsg (\<lambda>m. None) (\<lambda>a. alice) 0 \<lparr>Room_Name = ''''\<rparr> (ircPeer_ptr 0)
      \<lparr>Name = ''alice'', Text = ''hi''\<rparr> = (None, []) \<and>
   (\<exists>m. ircPeer_ChatMsg (\<lambda>m. None) (\<lambda>a. alice) 0 \<lparr>Room_Name = ''''\<rparr> (other_Peer 7)
          \<lparr>Name = ''bob'', Text = ''hi''\<rparr> = (None, [WriteMessage 0 m]) \<and>
        Command m = ''PRIVMSG'' \<and> Params m = [''#hub'', ''hi''])"
  using ChatMsg_no_echo [where io = "\<lambda>m. None" and st = "\<lambda>a. alice" and p = 0
      and room = "\<lparr>Room_Name = ''''\<rparr>" and msg = "\<lparr>Name = ''alice'', Text = ''hi''\<rparr>"
      and sender = "other_Peer 7"]
    ChatMsg_no_echo [where io = "\<lambda>m. None" and st = "\<lambda>a. alice" and p = 0
      and room = "\<lparr>Room_Name = ''''\<rparr>" and msg = "\<lparr>Name = ''bob'', Text = ''hi''\<rparr>"
      and sender = "other_Peer 7"]
  by (simp add: ircHubChan_def)

subsection \<open>Private chat\<close>

text \<open>
  C8. A \<^verbatim>\<open>PRIVMSG\<close> with two parameters whose target is not \<^verbatim>\<open>#hub\<close>: when no
  live peer has the target name the loop goes on as if the message had not been
  read, so nothing is returned, written or delivered for it; when a live peer has
  the name, the one effect of the message is the call of that peer's
  \<^verbatim>\<open>PrivateMsg\<close> with the sender and the text.
\<close>

theorem PRIVMSG_to_nick:
  assumes "Command m = ''PRIVMSG''" and "Params m = [dst, words]" and "dst \<noteq> ircHubChan"
  shows "(PeerByName h dst = None \<longrightarrow>
            ServeIRC_loop h st io peer (Inr m # reads) = ServeIRC_loop h st io peer reads) \<and>
         (PeerByName h dst = Some target \<longrightarrow>
            ServeIRC_loop h st io peer (Inr m # reads) =
              and_then
                [call_PrivateMsg target (ircPeer_ptr peer) \<lparr>Name = name (st peer), Text = words\<rparr>]
                (ServeIRC_loop h st io peer reads))"
  using assms by (simp add: privateChat_def ircPeer_Name_def)

theorem PRIVMSG_to_nick_witness:
  "ServeIRC_loop ((empty_Hub :: (unit, Peer) Hub)\<lparr>byName := [''bob'' \<mapsto> other_Peer 2]\<rparr>)
     (\<lambda>a. alice) (\<lambda>m. None) 0 [Inr (PRIVMSG ''carol'' ''secret'')] = (None, []) \<and>
   ServeIRC_loop ((empty_Hub :: (unit, Peer) Hub)\<lparr>byName := [''bob'' \<mapsto> other_Peer 2]\<rparr>)
     (\<lambda>a. alice) (\<lambda>m. None) 0 [Inr (PRIVMSG ''bob'' ''secret'')] =
     (None, [call_PrivateMsg (other_Peer 2) (ircPeer_ptr 0) \<lparr>Name = ''alice'', Text = ''secret''\<rparr>])"
  using PRIVMSG_to_nick [where m = "PRIVMSG ''carol'' ''secret''" and dst = "''carol''"
      and words = "''secret''" and reads = "[]" and peer = 0 and io = "\<lambda>m. None"
      and st = "\<lambda>a. alice"
      and h = "(empty_Hub :: (unit, Peer) Hub)\<lparr>byName := [''bob'' \<mapsto> other_Peer 2]\<rparr>"]
    PRIVMSG_to_nick [where m = "PRIVMSG ''bob'' ''secret''" and dst = "''bob''"
      and words = "''secret''" and reads = "[]" and peer = 0 and io = "\<lambda>m. None"
      and st = "\<lambda>a. alice" and target = "other_Peer 2"
      and h = "(empty_Hub :: (unit, Peer) Hub)\<lparr>byName := [''bob'' \<mapsto> other_Peer 2]\<rparr>"]
  by (simp add: PRIVMSG_def ircHubChan_def PeerByName_def empty_Hub_def and_then_def alice_def)

end
